theory Spec2Isabelle
  imports Complex_Main "HOL-Library.Multiset"
begin

section \<open>Values, errors and the environment object\<close>

text \<open>
  The exceptions the two source files can raise. \<open>KeyError\<close> is raised by \<open>main\<close> itself and
  by a dictionary read of a missing key; \<open>ValueError\<close> comes from the sampling routines
  (\<open>random.sample\<close> asked for more items than the list holds, \<open>np.random.randint\<close> on an
  empty range, the tournament on a list it does not accept); \<open>IndexError\<close> from
  \<open>pareto_fronts[0]\<close> on an empty list of fronts; \<open>AssertionError\<close> is what the
  environment's own \<open>checks\<close> may raise.
\<close>

datatype error =
    KeyError string
  | ValueError string
  | IndexError string
  | AssertionError string

text \<open>
  Attribute values of the environment: Python integers and floats. Floats are only drawn,
  stored and copied by the code under study, never computed with, and are carried as reals.
\<close>

datatype val = IntV int | FloatV real

text \<open>
  The environment object (\<open>QuadHover\<close> or \<open>QuadLanding\<close>, classes of an external package).
  The eight attributes that \<open>utils.py\<close> reads or writes are fields of their own; \<open>other\<close>
  stands for every other attribute and for the internal state of the object.
\<close>

record 'x env =
  delay :: val
  noise_std :: val
  noise_p_std :: val
  thrust_tc :: val
  dt :: val
  ds_act :: val
  jitter_prob :: val
  seeds :: val
  other :: 'x

text \<open>
  Objects live in a store, so that "the same object" is an equality of references and an
  assignment to an attribute is visible through every reference to the object.
  \<open>'g\<close> is the process-wide state of the random generators.
\<close>

type_synonym ref = nat
type_synonym 'x heap = "ref \<Rightarrow> 'x env"
type_synonym ('x, 'g) world = "'x heap \<times> 'g"

text \<open>
  The two methods of the environment that \<open>utils.py\<close> calls, \<open>env.seed(s)\<close> and
  \<open>env.checks()\<close>. Their bodies are not part of this repository: they are parameters,
  acting on the object and on the random state, and either may raise.
\<close>

record ('x, 'g) env_class =
  seed :: "val \<Rightarrow> 'x env \<times> 'g \<Rightarrow> (error + unit) \<times> ('x env \<times> 'g)"
  checks :: "'x env \<times> 'g \<Rightarrow> (error + unit) \<times> ('x env \<times> 'g)"

text \<open>A method call on the object at reference \<open>a\<close>: the object is updated in the store.\<close>

definition call_method ::
  "('x env \<times> 'g \<Rightarrow> (error + unit) \<times> ('x env \<times> 'g)) \<Rightarrow> ref \<Rightarrow> ('x, 'g) world
     \<Rightarrow> (error + unit) \<times> ('x, 'g) world" where
  "call_method m a w =
     (case m (fst w a, snd w) of (r, (e', g')) \<Rightarrow> (r, ((fst w)(a := e'), g')))"

section \<open>utils.py: getset_env\<close>

text \<open>The dictionary that \<open>getset_env\<close> returns and accepts.\<close>

type_synonym config_dict = "string \<rightharpoonup> val"

definition lookup :: "config_dict \<Rightarrow> string \<Rightarrow> error + val" where
  "lookup c k = (case c k of None \<Rightarrow> Inl (KeyError k) | Some v \<Rightarrow> Inr v)"

datatype getset_result = RetEnv ref | RetConfig config_dict

text \<open>
  The branch \<open>config is None\<close>: read the eight attributes into a fresh dictionary, in the
  source's order. Nothing is written.
\<close>

definition get_env :: "'x env \<Rightarrow> config_dict" where
  "get_env e =
     (((((((Map.empty(''delay'' \<mapsto> delay e))
        (''noise'' \<mapsto> noise_std e))
        (''noise p'' \<mapsto> noise_p_std e))
        (''thrust tc'' \<mapsto> thrust_tc e))
        (''dt'' \<mapsto> dt e))
        (''ds act'' \<mapsto> ds_act e))
        (''jitter'' \<mapsto> jitter_prob e))
        (''seeds'' \<mapsto> seeds e)"

text \<open>
  The branch \<open>config is not None\<close>: seven assignments, each reading its key first (a missing
  key raises and leaves the earlier assignments in place), then \<open>env.seed(config["seeds"])\<close>.
\<close>

definition set_env ::
  "('x, 'g) env_class \<Rightarrow> ref \<Rightarrow> config_dict \<Rightarrow> ('x, 'g) world
     \<Rightarrow> (error + getset_result) \<times> ('x, 'g) world" where
  "set_env cls a c w =
     (case lookup c ''delay'' of Inl err \<Rightarrow> (Inl err, w) | Inr v1 \<Rightarrow>
      let h1 = (fst w)(a := (fst w a)\<lparr>delay := v1\<rparr>) in
      case lookup c ''noise'' of Inl err \<Rightarrow> (Inl err, (h1, snd w)) | Inr v2 \<Rightarrow>
      let h2 = h1(a := (h1 a)\<lparr>noise_std := v2\<rparr>) in
      case lookup c ''noise p'' of Inl err \<Rightarrow> (Inl err, (h2, snd w)) | Inr v3 \<Rightarrow>
      let h3 = h2(a := (h2 a)\<lparr>noise_p_std := v3\<rparr>) in
      case lookup c ''thrust tc'' of Inl err \<Rightarrow> (Inl err, (h3, snd w)) | Inr v4 \<Rightarrow>
      let h4 = h3(a := (h3 a)\<lparr>thrust_tc := v4\<rparr>) in
      case lookup c ''dt'' of Inl err \<Rightarrow> (Inl err, (h4, snd w)) | Inr v5 \<Rightarrow>
      let h5 = h4(a := (h4 a)\<lparr>dt := v5\<rparr>) in
      case lookup c ''ds act'' of Inl err \<Rightarrow> (Inl err, (h5, snd w)) | Inr v6 \<Rightarrow>
      let h6 = h5(a := (h5 a)\<lparr>ds_act := v6\<rparr>) in
      case lookup c ''jitter'' of Inl err \<Rightarrow> (Inl err, (h6, snd w)) | Inr v7 \<Rightarrow>
      let h7 = h6(a := (h6 a)\<lparr>jitter_prob := v7\<rparr>) in
      case lookup c ''seeds'' of Inl err \<Rightarrow> (Inl err, (h7, snd w)) | Inr v8 \<Rightarrow>
      case call_method (seed cls v8) a (h7, snd w) of
        (Inl err, w') \<Rightarrow> (Inl err, w')
      | (Inr u, w') \<Rightarrow> (Inr (RetEnv a), w'))"

definition getset_env ::
  "('x, 'g) env_class \<Rightarrow> ref \<Rightarrow> config_dict option \<Rightarrow> ('x, 'g) world
     \<Rightarrow> (error + getset_result) \<times> ('x, 'g) world" where
  "getset_env cls a config w =
     (case config of
        Some c \<Rightarrow> set_env cls a c w
      | None \<Rightarrow> (Inr (RetConfig (get_env (fst w a))), w))"

text \<open>
  \<open>getset_env(env2, getset_env(env))\<close>: the inner call is evaluated first, and its
  dictionary is handed to the outer call.
\<close>

definition getset_roundtrip ::
  "('x, 'g) env_class \<Rightarrow> ref \<Rightarrow> ref \<Rightarrow> ('x, 'g) world
     \<Rightarrow> (error + getset_result) \<times> ('x, 'g) world" where
  "getset_roundtrip cls a2 a w =
     (case getset_env cls a None w of
        (Inr (RetConfig c), w1) \<Rightarrow> getset_env cls a2 (Some c) w1
      | (r, w1) \<Rightarrow> (r, w1))"

text \<open>Two objects agree on the seven disturbance attributes (the seed apart).\<close>

definition same_disturbance :: "'x env \<Rightarrow> 'x env \<Rightarrow> bool" where
  "same_disturbance e e' \<longleftrightarrow>
     delay e' = delay e \<and> noise_std e' = noise_std e \<and> noise_p_std e' = noise_p_std e \<and>
     thrust_tc e' = thrust_tc e \<and> dt e' = dt e \<and> ds_act e' = ds_act e \<and>
     jitter_prob e' = jitter_prob e"

text \<open>
  What is asked of the external method \<open>env.seed\<close>: whatever else it does, it leaves the
  seven disturbance attributes of its object alone.
\<close>

definition seed_keeps_disturbance :: "('x, 'g) env_class \<Rightarrow> bool" where
  "seed_keeps_disturbance cls \<longleftrightarrow>
     (\<forall>v e g. same_disturbance e (fst (snd (seed cls v (e, g)))))"

text \<open>
  A small environment class for concrete runs: \<open>seed\<close> records the seed in the attribute
  \<open>seeds\<close> and restarts the random state from it; \<open>checks\<close> asserts that the delay is a
  non-negative integer.
\<close>

definition toy_class :: "(nat, nat) env_class" where
  "toy_class =
     \<lparr> seed = (\<lambda>v (e, g). (Inr (), (e\<lparr>seeds := v\<rparr>, (case v of IntV i \<Rightarrow> nat i | FloatV x \<Rightarrow> g)))),
       checks = (\<lambda>(e, g). ((case delay e of
                               IntV i \<Rightarrow> if 0 \<le> i then Inr () else Inl (AssertionError ''delay'')
                             | FloatV x \<Rightarrow> Inl (AssertionError ''delay'')), (e, g))) \<rparr>"

definition toy_env :: "int \<Rightarrow> nat env" where
  "toy_env k =
     \<lparr> delay = IntV k, noise_std = FloatV (real_of_int k), noise_p_std = FloatV 0,
       thrust_tc = FloatV 1, dt = FloatV 2, ds_act = IntV (k + 1),
       jitter_prob = FloatV 0, seeds = IntV 7, other = 0 \<rparr>"

definition toy_heap :: "nat heap" where
  "toy_heap a = toy_env (int a)"

section \<open>utils.py: randomize_env\<close>

text \<open>
  The entries of \<open>config["env"]\<close> that \<open>randomize_env\<close> reads: a two-element range for each
  of the seven disturbance parameters (unpacked into the two arguments of the sampler) and
  the upper bound of the episode seed.
\<close>

record env_ranges =
  r_delay :: "int \<times> int"
  r_noise :: "real \<times> real"
  r_noise_p :: "real \<times> real"
  r_thrust_tc :: "real \<times> real"
  r_dt :: "real \<times> real"
  r_ds_act :: "int \<times> int"
  r_jitter :: "real \<times> real"
  r_seeds :: int

text \<open>
  The process-wide generator of \<open>numpy.random\<close>: one primitive that draws an integer and
  one that draws a float, both advancing the random state. The distribution of the draws is
  outside this model.
\<close>

record 'g np_random =
  draw_int :: "int \<Rightarrow> int \<Rightarrow> 'g \<Rightarrow> int \<times> 'g"
  draw_real :: "real \<Rightarrow> real \<Rightarrow> 'g \<Rightarrow> real \<times> 'g"

text \<open>\<open>np.random.randint(low, high)\<close> raises on an empty range.\<close>

definition randint :: "'g np_random \<Rightarrow> int \<Rightarrow> int \<Rightarrow> 'g \<Rightarrow> (error + int) \<times> 'g" where
  "randint np lo hi g =
     (if lo < hi then (case draw_int np lo hi g of (i, g') \<Rightarrow> (Inr i, g'))
      else (Inl (ValueError ''low >= high''), g))"

definition uniform :: "'g np_random \<Rightarrow> real \<Rightarrow> real \<Rightarrow> 'g \<Rightarrow> real \<times> 'g" where
  "uniform np lo hi g = draw_real np lo hi g"

definition randomize_env ::
  "'g np_random \<Rightarrow> ('x, 'g) env_class \<Rightarrow> ref \<Rightarrow> env_ranges \<Rightarrow> ('x, 'g) world
     \<Rightarrow> (error + ref) \<times> ('x, 'g) world" where
  "randomize_env np cls a cfg w =
     (case randint np (fst (r_delay cfg)) (snd (r_delay cfg)) (snd w) of
        (Inl err, g1) \<Rightarrow> (Inl err, (fst w, g1))
      | (Inr v1, g1) \<Rightarrow>
      let h1 = (fst w)(a := (fst w a)\<lparr>delay := IntV v1\<rparr>) in
      case uniform np (fst (r_noise cfg)) (snd (r_noise cfg)) g1 of (v2, g2) \<Rightarrow>
      let h2 = h1(a := (h1 a)\<lparr>noise_std := FloatV v2\<rparr>) in
      case uniform np (fst (r_noise_p cfg)) (snd (r_noise_p cfg)) g2 of (v3, g3) \<Rightarrow>
      let h3 = h2(a := (h2 a)\<lparr>noise_p_std := FloatV v3\<rparr>) in
      case uniform np (fst (r_thrust_tc cfg)) (snd (r_thrust_tc cfg)) g3 of (v4, g4) \<Rightarrow>
      let h4 = h3(a := (h3 a)\<lparr>thrust_tc := FloatV v4\<rparr>) in
      case uniform np (fst (r_dt cfg)) (snd (r_dt cfg)) g4 of (v5, g5) \<Rightarrow>
      let h5 = h4(a := (h4 a)\<lparr>dt := FloatV v5\<rparr>) in
      case randint np (fst (r_ds_act cfg)) (snd (r_ds_act cfg)) g5 of
        (Inl err, g6) \<Rightarrow> (Inl err, (h5, g6))
      | (Inr v6, g6) \<Rightarrow>
      let h6 = h5(a := (h5 a)\<lparr>ds_act := IntV v6\<rparr>) in
      case uniform np (fst (r_jitter cfg)) (snd (r_jitter cfg)) g6 of (v7, g7) \<Rightarrow>
      let h7 = h6(a := (h6 a)\<lparr>jitter_prob := FloatV v7\<rparr>) in
      case randint np 0 (r_seeds cfg) g7 of
        (Inl err, g8) \<Rightarrow> (Inl err, (h7, g8))
      | (Inr s, g8) \<Rightarrow>
      case call_method (seed cls (IntV s)) a (h7, g8) of
        (Inl err, w9) \<Rightarrow> (Inl err, w9)
      | (Inr u, w9) \<Rightarrow>
      case call_method (checks cls) a w9 of
        (Inl err, w10) \<Rightarrow> (Inl err, w10)
      | (Inr u', w10) \<Rightarrow> (Inr a, w10))"

text \<open>
  A generator for concrete runs: the random state is a counter, an integer draw is the
  lower bound plus the counter reduced into the range, a float draw is the lower bound.
\<close>

definition toy_np :: "nat np_random" where
  "toy_np =
     \<lparr> draw_int = (\<lambda>lo hi g. (lo + int g mod (hi - lo), Suc g)),
       draw_real = (\<lambda>lo hi g. (lo, Suc g)) \<rparr>"

definition toy_ranges :: env_ranges where
  "toy_ranges =
     \<lparr> r_delay = (0, 4), r_noise = (0, 1), r_noise_p = (0, 1), r_thrust_tc = (1, 2),
       r_dt = (2, 3), r_ds_act = (1, 3), r_jitter = (0, 1), r_seeds = 100 \<rparr>"

section \<open>main.py: individuals, configuration and collaborators\<close>

text \<open>
  An objective vector is the tuple \<open>ind.fitness.values\<close>; it is empty until the individual
  is first evaluated. An individual is a one-element list holding its network (the genome)
  together with its fitness; \<open>crowding_dist\<close> is the attribute the selector attaches to the
  fitness.
\<close>

type_synonym fit = "real list"

record 'n individual =
  genome :: 'n
  fitness :: fit
  crowding_dist :: "real option"

text \<open>
  The keys of the configuration that the driver itself reads. A size and a number of
  generations are natural numbers; the remaining keys are consumed by the collaborators.
\<close>

record config =
  network :: string
  scenario :: string
  pop_size :: nat
  gens :: nat

text \<open>
  One record of the logbook: \<open>gen\<close>, \<open>evals\<close> and the five statistics, each a vector with
  one entry per objective (\<open>axis=0\<close>).
\<close>

record report =
  gen :: nat
  evals :: nat
  avg :: "real list"
  std :: "real list"
  min_stat :: "real list"
  max_stat :: "real list"
  median :: "real list"

text \<open>
  Everything \<open>main\<close> imports and calls but does not define: the network and environment
  constructors, the two evaluators, the crossover and mutation operators, the selection
  routines of the evolutionary library, the archive's update, the five reductions
  registered with the statistics object (each with its rounding to two decimals), and the
  raw draw of Python's \<open>random\<close> module. All of them are parameters. Those that consume
  randomness or touch the shared environment take and return the process-wide state \<open>'g\<close>.
\<close>

record ('n, 'g) collaborators =
  ANN :: "'g \<Rightarrow> 'n \<times> 'g"
  SNN :: "'g \<Rightarrow> 'n \<times> 'g"
  QuadHover :: "'g \<Rightarrow> 'g"
  QuadLanding :: "'g \<Rightarrow> 'g"
  eval_hover :: "'n individual \<Rightarrow> 'g \<Rightarrow> fit \<times> 'g"
  eval_landing :: "'n individual \<Rightarrow> 'g \<Rightarrow> fit \<times> 'g"
  crossover_none :: "'n individual \<Rightarrow> 'n individual \<Rightarrow> 'n individual \<times> 'n individual"
  mutate_call_network :: "'n individual \<Rightarrow> 'g \<Rightarrow> 'n individual \<times> 'g"
  selNSGA2 :: "'n individual list \<Rightarrow> nat \<Rightarrow> 'n individual list"
  sortNondominated :: "'n individual list \<Rightarrow> nat \<Rightarrow> 'n individual list list"
  selTournamentDCD :: "'n individual list \<Rightarrow> nat \<Rightarrow> 'g \<Rightarrow> (error + 'n individual list) \<times> 'g"
  pareto_update :: "'n individual list \<Rightarrow> 'n individual list \<Rightarrow> 'n individual list"
  np_mean :: "fit list \<Rightarrow> real list"
  np_std :: "fit list \<Rightarrow> real list"
  np_min :: "fit list \<Rightarrow> real list"
  np_max :: "fit list \<Rightarrow> real list"
  np_median :: "fit list \<Rightarrow> real list"
  getrandbits :: "'g \<Rightarrow> nat \<times> 'g"

text \<open>What \<open>main\<close> registers with the toolbox (lines 78 to 94).\<close>

record ('n, 'g) toolbox =
  individual :: "'g \<Rightarrow> 'n individual \<times> 'g"
  evaluate :: "'n individual \<Rightarrow> 'g \<Rightarrow> fit \<times> 'g"
  mate :: "'n individual \<Rightarrow> 'n individual \<Rightarrow> 'n individual \<times> 'n individual"
  mutate :: "'n individual \<Rightarrow> 'g \<Rightarrow> 'n individual \<times> 'g"
  select :: "'n individual list \<Rightarrow> nat \<Rightarrow> 'n individual list"

text \<open>
  The observable steps of a run, in the order in which the driver performs them. Every
  event of a generation carries the number of that generation.
\<close>

datatype 'n event =
    EvEnvInit
  | EvPopInit nat
  | EvEvaluate nat "'n individual"
  | EvMutate nat "'n individual"
  | EvArchive nat "'n individual list"
  | EvSelect nat
  | EvReport report

text \<open>The variables of \<open>main\<close> that live across generations, the event trace and the random state.\<close>

record ('n, 'g) state =
  population :: "'n individual list"
  hof :: "'n individual list"
  logbook :: "report list"
  trace :: "'n event list"
  rng :: 'g

section \<open>main.py: helpers\<close>

text \<open>
  A function that consumes randomness, applied to the elements of a list from left to
  right. The list comprehension of line 184 is this map.
\<close>

fun map_rng :: "('a \<Rightarrow> 'g \<Rightarrow> 'b \<times> 'g) \<Rightarrow> 'a list \<Rightarrow> 'g \<Rightarrow> 'b list \<times> 'g" where
  "map_rng f [] g = ([], g)"
| "map_rng f (x # xs) g =
     (case f x g of (y, g1) \<Rightarrow> (case map_rng f xs g1 of (ys, g2) \<Rightarrow> (y # ys, g2)))"

text \<open>
  Modelled from the spec: \<open>dask_map\<close> is imported from \<open>evolutionary.utils.utils\<close> but its
  definition is not in the source at hand. The specification asks for
  "map(fn, collection) -> collection of results, order-preserving": one call of the function
  per element, the results in the order of the elements.
\<close>

definition dask_map :: "('a \<Rightarrow> 'g \<Rightarrow> 'b \<times> 'g) \<Rightarrow> 'a list \<Rightarrow> 'g \<Rightarrow> 'b list \<times> 'g" where
  "dask_map f xs g = map_rng f xs g"

text \<open>\<open>tools.initRepeat(list, func, n)\<close>: \<open>n\<close> calls of the generator.\<close>

fun initRepeat :: "('g \<Rightarrow> 'a \<times> 'g) \<Rightarrow> nat \<Rightarrow> 'g \<Rightarrow> 'a list \<times> 'g" where
  "initRepeat func 0 g = ([], g)"
| "initRepeat func (Suc n) g =
     (case func g of (x, g1) \<Rightarrow> (case initRepeat func n g1 of (xs, g2) \<Rightarrow> (x # xs, g2)))"

text \<open>\<open>for ind, fit in zip(population, fitnesses): ind.fitness.values = fit\<close>.\<close>

definition assign_fitness :: "'n individual list \<Rightarrow> fit list \<Rightarrow> 'n individual list" where
  "assign_fitness inds fits = map (\<lambda>(ind, f). ind\<lparr>fitness := f\<rparr>) (zip inds fits)"

text \<open>\<open>toolbox.clone\<close> is a deep copy: on values, the identity.\<close>

definition clone :: "'n individual \<Rightarrow> 'n individual" where
  "clone ind = ind"

text \<open>
  \<open>stats.compile(population)\<close> followed by \<open>logbook.record(gen=.., evals=.., ...)\<close>: the
  statistics are taken over the fitness values of the individuals.
\<close>

definition make_record ::
  "('n, 'g) collaborators \<Rightarrow> nat \<Rightarrow> nat \<Rightarrow> 'n individual list \<Rightarrow> report" where
  "make_record lib g n pop =
     \<lparr> gen = g, evals = n,
       avg = np_mean lib (map fitness pop), std = np_std lib (map fitness pop),
       min_stat = np_min lib (map fitness pop), max_stat = np_max lib (map fitness pop),
       median = np_median lib (map fitness pop) \<rparr>"

subsection \<open>random.sample\<close>

text \<open>
  \<open>random.sample(population, k)\<close> of the standard library raises when \<open>k\<close> exceeds the
  length of the list and otherwise picks \<open>k\<close> positions without repetition. Its pool
  algorithm is followed here: draw \<open>j\<close> below the number of entries still in the pool, take
  \<open>pool[j]\<close>, and move the last live entry into the vacancy. A draw below \<open>m\<close> is the raw
  draw reduced modulo \<open>m\<close>.
\<close>

fun sample_loop :: "('g \<Rightarrow> nat \<times> 'g) \<Rightarrow> 'a list \<Rightarrow> nat \<Rightarrow> nat \<Rightarrow> 'g \<Rightarrow> 'a list \<times> 'g" where
  "sample_loop rb pool m 0 g = ([], g)"
| "sample_loop rb pool m (Suc k) g =
     (case rb g of (r, g1) \<Rightarrow>
        (case sample_loop rb (pool[r mod m := pool ! (m - 1)]) (m - 1) k g1 of
           (xs, g2) \<Rightarrow> (pool ! (r mod m) # xs, g2)))"

definition random_sample ::
  "('g \<Rightarrow> nat \<times> 'g) \<Rightarrow> 'a list \<Rightarrow> nat \<Rightarrow> 'g \<Rightarrow> (error + 'a list) \<times> 'g" where
  "random_sample rb xs k g =
     (if length xs < k then (Inl (ValueError ''Sample larger than population or is negative''), g)
      else (case sample_loop rb xs (length xs) k g of (ys, g') \<Rightarrow> (Inr ys, g')))"

text \<open>
  Sampling as the specification words it, for comparison: \<open>k\<close> independent picks, each from
  the whole list, so that an element may be picked again.
\<close>

fun sample_with_replacement ::
  "('g \<Rightarrow> nat \<times> 'g) \<Rightarrow> 'a list \<Rightarrow> nat \<Rightarrow> 'g \<Rightarrow> 'a list \<times> 'g" where
  "sample_with_replacement rb xs 0 g = ([], g)"
| "sample_with_replacement rb xs (Suc k) g =
     (case rb g of (r, g1) \<Rightarrow>
        (case sample_with_replacement rb xs k g1 of
           (ys, g2) \<Rightarrow> (xs ! (r mod length xs) # ys, g2)))"

section \<open>main.py: the generational driver\<close>

text \<open>
  Lines 171 and 172: when the length of \<open>others\<close> is not a multiple of four, extend it by a
  sample of \<open>4 - len(others) % 4\<close> individuals of \<open>selection\<close>.
\<close>

definition pad_others ::
  "('g \<Rightarrow> nat \<times> 'g) \<Rightarrow> 'a list \<Rightarrow> 'a list \<Rightarrow> 'g \<Rightarrow> (error + 'a list) \<times> 'g" where
  "pad_others rb others selection g =
     (if length others mod 4 \<noteq> 0 then
        (case random_sample rb selection (4 - length others mod 4) g of
           (Inl err, g') \<Rightarrow> (Inl err, g')
         | (Inr smp, g') \<Rightarrow> (Inr (others @ smp), g'))
      else (Inr others, g))"

text \<open>The padding step with the sampling of the specification's wording.\<close>

definition pad_others_with_replacement ::
  "('g \<Rightarrow> nat \<times> 'g) \<Rightarrow> 'a list \<Rightarrow> 'a list \<Rightarrow> 'g \<Rightarrow> (error + 'a list) \<times> 'g" where
  "pad_others_with_replacement rb others selection g =
     (if length others mod 4 \<noteq> 0 then
        (case sample_with_replacement rb selection (4 - length others mod 4) g of
           (smp, g') \<Rightarrow> (Inr (others @ smp), g'))
      else (Inr others, g))"

text \<open>
  Lines 184 to 186: the offspring are mutated clones of the first \<open>len(population)\<close>
  members of \<open>selection\<close>.
\<close>

definition make_offspring ::
  "('n, 'g) toolbox \<Rightarrow> 'n individual list \<Rightarrow> nat \<Rightarrow> 'g \<Rightarrow> 'n individual list \<times> 'g" where
  "make_offspring tb selection n g = map_rng (\<lambda>ind. mutate tb (clone ind)) (take n selection) g"

text \<open>
  One pass of the loop body (lines 158 to 215) for generation \<open>gen\<close>. The three places that
  can raise (an empty list of fronts, the padding sample, the tournament) come before any
  individual is touched; the state handed back with the error differs from the incoming
  one in the random state only.
\<close>

definition evolve_step ::
  "('n, 'g) collaborators \<Rightarrow> ('n, 'g) toolbox \<Rightarrow> config \<Rightarrow> nat \<Rightarrow> ('n, 'g) state
     \<Rightarrow> (error \<times> ('n, 'g) state) + ('n, 'g) state" where
  "evolve_step lib tb cfg g s =
     (case sortNondominated lib (population s) (length (population s)) of
        [] \<Rightarrow> Inl (IndexError ''list index out of range'', s)
      | front0 # fronts \<Rightarrow>
        (case pad_others (getrandbits lib) (concat fronts) front0 (rng s) of
           (Inl err, g1) \<Rightarrow> Inl (err, s\<lparr>rng := g1\<rparr>)
         | (Inr others, g1) \<Rightarrow>
           (case selTournamentDCD lib others (length others) g1 of
              (Inl err, g2) \<Rightarrow> Inl (err, s\<lparr>rng := g2\<rparr>)
            | (Inr chosen, g2) \<Rightarrow>
              (let selection = front0 @ chosen;
                   parents = take (length (population s)) selection in
               case make_offspring tb selection (length (population s)) g2 of
                 (offspring, g3) \<Rightarrow>
               case dask_map (evaluate tb) (population s) g3 of (fits_p, g4) \<Rightarrow>
               case dask_map (evaluate tb) offspring g4 of (fits_o, g5) \<Rightarrow>
               (let pop1 = assign_fitness (population s) fits_p;
                    off1 = assign_fitness offspring fits_o;
                    hof1 = pareto_update lib (hof s) (pop1 @ off1);
                    pop2 = select tb (pop1 @ off1) (pop_size cfg);
                    rec = make_record lib g (length off1 + length pop2) pop2
                in Inr \<lparr> population = pop2, hof = hof1, logbook = logbook s @ [rec],
                          trace = trace s @ map (EvMutate g) (map clone parents)
                            @ map (EvEvaluate g) (population s) @ map (EvEvaluate g) offspring
                            @ [EvArchive g (pop1 @ off1), EvSelect g, EvReport rec],
                          rng = g5 \<rparr>)))))"

text \<open>\<open>for gen in range(1, config["gens"])\<close>: an exception leaves the loop.\<close>

fun evolve_loop ::
  "('n, 'g) collaborators \<Rightarrow> ('n, 'g) toolbox \<Rightarrow> config \<Rightarrow> nat list \<Rightarrow> ('n, 'g) state
     \<Rightarrow> (error \<times> ('n, 'g) state) + ('n, 'g) state" where
  "evolve_loop lib tb cfg [] s = Inr s"
| "evolve_loop lib tb cfg (g # gs) s =
     (case evolve_step lib tb cfg g s of
        Inl err \<Rightarrow> Inl err
      | Inr s' \<Rightarrow> evolve_loop lib tb cfg gs s')"

text \<open>
  Lines 41 to 60 and 78 to 94: the network and the scenario are looked up by their keys,
  the network first; an unknown key raises \<open>KeyError\<close>. The result is the toolbox together
  with the constructor of the environment.
\<close>

definition make_toolbox ::
  "('n, 'g) collaborators \<Rightarrow> config \<Rightarrow> error + (('n, 'g) toolbox \<times> ('g \<Rightarrow> 'g))" where
  "make_toolbox lib cfg =
     (if network cfg = ''ANN'' \<or> network cfg = ''SNN'' then
        (let net = (if network cfg = ''ANN'' then ANN lib else SNN lib) in
         if scenario cfg = ''hover'' \<or> scenario cfg = ''landing'' then
           (let env = (if scenario cfg = ''hover'' then QuadHover lib else QuadLanding lib);
                eval = (if scenario cfg = ''hover'' then eval_hover lib else eval_landing lib)
            in Inr (\<lparr> individual = (\<lambda>g. case net g of (n, g') \<Rightarrow>
                          (\<lparr> genome = n, fitness = [], crowding_dist = None \<rparr>, g')),
                      evaluate = eval, mate = crossover_none lib,
                      mutate = mutate_call_network lib, select = selNSGA2 lib \<rparr>, env))
         else Inl (KeyError ''Not a valid scenario key!''))
      else Inl (KeyError ''Not a valid network key!''))"

text \<open>The state before anything has happened.\<close>

definition initial_state :: "'g \<Rightarrow> ('n, 'g) state" where
  "initial_state g = \<lparr> population = [], hof = [], logbook = [], trace = [], rng = g \<rparr>"

text \<open>
  Lines 63 to 130: construct the environment, initialise and evaluate the population, run
  the selector over the whole population, log the first record and update the archive.
\<close>

definition generation_zero ::
  "('n, 'g) collaborators \<Rightarrow> ('n, 'g) toolbox \<Rightarrow> ('g \<Rightarrow> 'g) \<Rightarrow> config \<Rightarrow> 'g \<Rightarrow> ('n, 'g) state" where
  "generation_zero lib tb env cfg g =
     (case initRepeat (individual tb) (pop_size cfg) (env g) of (pop0, g1) \<Rightarrow>
      case dask_map (evaluate tb) pop0 g1 of (fits, g2) \<Rightarrow>
      (let pop1 = assign_fitness pop0 fits;
           pop2 = select tb pop1 (length pop1);
           rec = make_record lib 0 (length pop2) pop2;
           hof1 = pareto_update lib [] pop2
       in \<lparr> population = pop2, hof = hof1, logbook = [rec],
             trace = [EvEnvInit, EvPopInit (pop_size cfg)] @ map (EvEvaluate 0) pop0
               @ [EvSelect 0, EvReport rec, EvArchive 0 pop2],
             rng = g2 \<rparr>))"

text \<open>
  The run up to the end of generation \<open>n\<close>: generation zero followed by the loop body for
  the generations \<open>1, ..., n\<close>.
\<close>

definition end_of_generation ::
  "('n, 'g) collaborators \<Rightarrow> config \<Rightarrow> 'g \<Rightarrow> nat
     \<Rightarrow> (error \<times> ('n, 'g) state) + ('n, 'g) state" where
  "end_of_generation lib cfg g n =
     (case make_toolbox lib cfg of
        Inl err \<Rightarrow> Inl (err, initial_state g)
      | Inr (tb, env) \<Rightarrow> evolve_loop lib tb cfg [1..<Suc n] (generation_zero lib tb env cfg g))"

text \<open>
  \<open>main(config, debug=True)\<close>: plotting and the writing of parameters to disk (the blocks
  under \<open>if not debug\<close>) read the population and the archive and change neither; they are
  left out.
\<close>

definition main ::
  "('n, 'g) collaborators \<Rightarrow> config \<Rightarrow> 'g \<Rightarrow> (error \<times> ('n, 'g) state) + ('n, 'g) state" where
  "main lib cfg g =
     (case make_toolbox lib cfg of
        Inl err \<Rightarrow> Inl (err, initial_state g)
      | Inr (tb, env) \<Rightarrow>
          evolve_loop lib tb cfg [1..<gens cfg] (generation_zero lib tb env cfg g))"

section \<open>Vocabulary for the properties of a run\<close>

text \<open>
  What the driver relies on from the selector of the evolutionary library: asked for \<open>k\<close>
  individuals out of at least \<open>k\<close>, it returns exactly \<open>k\<close>.
\<close>

definition selNSGA2_exact :: "('n, 'g) collaborators \<Rightarrow> bool" where
  "selNSGA2_exact lib \<longleftrightarrow> (\<forall>xs k. k \<le> length xs \<longrightarrow> length (selNSGA2 lib xs k) = k)"

fun is_evaluate :: "nat \<Rightarrow> 'n event \<Rightarrow> bool" where
  "is_evaluate g (EvEvaluate g' ind) = (g' = g)"
| "is_evaluate g ev = False"

fun is_mutate :: "nat \<Rightarrow> 'n event \<Rightarrow> bool" where
  "is_mutate g (EvMutate g' ind) = (g' = g)"
| "is_mutate g ev = False"



text \<open>The generation an event belongs to.\<close>

fun event_gen :: "'n event \<Rightarrow> nat" where
  "event_gen EvEnvInit = 0"
| "event_gen (EvPopInit n) = 0"
| "event_gen (EvEvaluate g ind) = g"
| "event_gen (EvMutate g ind) = g"
| "event_gen (EvArchive g inds) = g"
| "event_gen (EvSelect g) = g"
| "event_gen (EvReport r) = gen r"

text \<open>The number of evaluate calls of generation \<open>g\<close> in a trace.\<close>

definition count_evals :: "nat \<Rightarrow> 'n event list \<Rightarrow> nat" where
  "count_evals g tr = length (filter (is_evaluate g) tr)"


text \<open>The events that a step has added to the trace.\<close>

definition new_events :: "('n, 'g) state \<Rightarrow> ('n, 'g) state \<Rightarrow> 'n event list" where
  "new_events s s' = drop (length (trace s)) (trace s')"

text \<open>
  The state at the end of generation \<open>n\<close> is in order: the population has the configured
  size; the logbook holds one record for each generation so far, the record of generation
  \<open>i\<close> carrying that number and, as its evaluation count, the number of evaluate calls of
  generation \<open>i\<close>, and having been emitted; and no event belongs to a later generation.
\<close>

definition gen_inv :: "config \<Rightarrow> nat \<Rightarrow> ('n, 'g) state \<Rightarrow> bool" where
  "gen_inv cfg n s \<longleftrightarrow>
     length (population s) = pop_size cfg \<and>
     length (logbook s) = Suc n \<and>
     (\<forall>i \<le> n. gen (logbook s ! i) = i \<and>
               evals (logbook s ! i) = count_evals i (trace s) \<and>
               EvReport (logbook s ! i) \<in> set (trace s)) \<and>
     (\<forall>e \<in> set (trace s). event_gen e \<le> n)"


section \<open>A small instance for concrete runs\<close>

text \<open>
  The random state is the list of the raw draws still to come; an exhausted list keeps
  yielding zero.
\<close>

fun toy_draw :: "nat list \<Rightarrow> nat \<times> nat list" where
  "toy_draw [] = (0, [])"
| "toy_draw (x # xs) = (x, xs)"

text \<open>
  Genomes are numbers. Every episode scores the same objective vector, so that all
  individuals are mutually non-dominated: the decomposition into fronts is the single
  front of all individuals, selection keeps the first \<open>k\<close> individuals, and the tournament
  (which insists on a multiple of four when it is asked for as many individuals as it is
  given) has nothing to decide. Mutation adds a raw draw to the genome.
\<close>

definition toy_lib :: "(nat, nat list) collaborators" where
  "toy_lib =
     \<lparr> ANN = toy_draw, SNN = toy_draw,
       QuadHover = (\<lambda>g. g), QuadLanding = (\<lambda>g. g),
       eval_hover = (\<lambda>ind g. ([1, 5, 0], g)),
       eval_landing = (\<lambda>ind g. ([1, 5, 0], g)),
       crossover_none = (\<lambda>a b. (a, b)),
       mutate_call_network =
         (\<lambda>ind g. case toy_draw g of (r, g') \<Rightarrow> (ind\<lparr>genome := genome ind + r\<rparr>, g')),
       selNSGA2 = (\<lambda>xs k. take k xs),
       sortNondominated = (\<lambda>xs k. if k = 0 \<or> xs = [] then [] else [xs]),
       selTournamentDCD =
         (\<lambda>xs k g. if length xs < k \<or> (k = length xs \<and> k mod 4 \<noteq> 0)
                     then (Inl (ValueError ''selTournamentDCD''), g)
                     else (Inr (take k xs), g)),
       pareto_update = (\<lambda>h xs. if h = [] then take 1 xs else h),
       np_mean = (\<lambda>fs. case fs of [] \<Rightarrow> [] | f # _ \<Rightarrow> f),
       np_std = (\<lambda>fs. case fs of [] \<Rightarrow> [] | f # _ \<Rightarrow> map (\<lambda>_. 0) f),
       np_min = (\<lambda>fs. case fs of [] \<Rightarrow> [] | f # _ \<Rightarrow> f),
       np_max = (\<lambda>fs. case fs of [] \<Rightarrow> [] | f # _ \<Rightarrow> f),
       np_median = (\<lambda>fs. case fs of [] \<Rightarrow> [] | f # _ \<Rightarrow> f),
       getrandbits = toy_draw \<rparr>"

definition toy_config :: config where
  "toy_config = \<lparr> network = ''ANN'', scenario = ''landing'', pop_size = 2, gens = 2 \<rparr>"

definition bad_config :: config where
  "bad_config = \<lparr> network = ''CNN'', scenario = ''landing'', pop_size = 2, gens = 2 \<rparr>"

text \<open>The toolbox that \<open>main\<close> registers for this instance, and the draws of the sample run.\<close>

definition toy_toolbox :: "(nat, nat list) toolbox" where
  "toy_toolbox =
     \<lparr> individual = (\<lambda>g. case toy_draw g of (n, g') \<Rightarrow>
                        (\<lparr> genome = n, fitness = [], crowding_dist = None \<rparr>, g')),
       evaluate = (\<lambda>ind g. ([1, 5, 0], g)),
       mate = (\<lambda>a b. (a, b)),
       mutate = (\<lambda>ind g. case toy_draw g of (r, g') \<Rightarrow> (ind\<lparr>genome := genome ind + r\<rparr>, g')),
       select = (\<lambda>xs k. take k xs) \<rparr>"

definition toy_draws :: "nat list" where
  "toy_draws = [10, 20, 3, 4]"

definition toy_state0 :: "(nat, nat list) state" where
  "toy_state0 = generation_zero toy_lib toy_toolbox (\<lambda>g. g) toy_config toy_draws"

section \<open>An instance with dominance\<close>

text \<open>
  Modelled from the spec: the routines of the evolutionary library are not part of the
  source at hand. The specification defines dominance for minimisation ("A dominates B
  iff A[i] <= B[i] for all i and A[i] < B[i] for at least one i") and the decomposition
  into fronts ("repeatedly extracting the maximal non-dominated subset of the remaining
  individuals"). The number of rounds is bounded by the number of individuals.
\<close>

definition dominates :: "fit \<Rightarrow> fit \<Rightarrow> bool" where
  "dominates a b \<longleftrightarrow>
     list_all (\<lambda>(x, y). x \<le> y) (zip a b) \<and> list_ex (\<lambda>(x, y). x < y) (zip a b)"

definition dominated_in :: "'n individual list \<Rightarrow> 'n individual \<Rightarrow> bool" where
  "dominated_in xs x \<longleftrightarrow> list_ex (\<lambda>y. dominates (fitness y) (fitness x)) xs"

fun fronts_of :: "nat \<Rightarrow> 'n individual list \<Rightarrow> 'n individual list list" where
  "fronts_of 0 xs = []"
| "fronts_of (Suc n) xs =
     (case xs of
        [] \<Rightarrow> []
      | x # xs' \<Rightarrow> filter (\<lambda>y. \<not> dominated_in xs y) xs
                    # fronts_of n (filter (dominated_in xs) xs))"

text \<open>
  The instance: the first objective of an episode is the genome itself, so that a smaller
  genome dominates a larger one; fronts by dominance; the selector hands back the
  individuals front by front (the ranking inside a front that is cut is not modelled).
  The remaining entries are those of the first instance.
\<close>

definition dom_lib :: "(nat, nat list) collaborators" where
  "dom_lib = toy_lib
     \<lparr> eval_hover := (\<lambda>ind g. ([real (genome ind), 0, 0], g)),
       eval_landing := (\<lambda>ind g. ([real (genome ind), 0, 0], g)),
       selNSGA2 := (\<lambda>xs k. take k (concat (fronts_of (length xs) xs))),
       sortNondominated := (\<lambda>xs k. if k = 0 then [] else fronts_of (length xs) xs) \<rparr>"

section \<open>Properties of getset_env\<close>

lemma lookup_get_env:
  "lookup (get_env e) ''delay'' = Inr (delay e)"
  "lookup (get_env e) ''noise'' = Inr (noise_std e)"
  "lookup (get_env e) ''noise p'' = Inr (noise_p_std e)"
  "lookup (get_env e) ''thrust tc'' = Inr (thrust_tc e)"
  "lookup (get_env e) ''dt'' = Inr (dt e)"
  "lookup (get_env e) ''ds act'' = Inr (ds_act e)"
  "lookup (get_env e) ''jitter'' = Inr (jitter_prob e)"
  "lookup (get_env e) ''seeds'' = Inr (seeds e)"
  by (simp_all add: lookup_def get_env_def)

lemma toy_seed_keeps: "seed_keeps_disturbance toy_class"
  by (simp add: seed_keeps_disturbance_def toy_class_def same_disturbance_def)

text \<open>
  C9. Get-then-set is a round trip on the seven non-seed attributes: after
  \<open>getset_env(env2, getset_env(env))\<close> the object \<open>env2\<close> carries the values that \<open>env\<close> had
  for delay, noise_std, noise_p_std, thrust_tc, dt, ds_act and jitter_prob, whether or not
  \<open>env\<close> and \<open>env2\<close> are the same object, and whether or not the final \<open>env.seed\<close> call
  raises; the external \<open>seed\<close> method is required not to write these attributes.
\<close>

theorem getset_env_roundtrip:
  assumes "seed_keeps_disturbance cls"
  shows "same_disturbance (fst w a) (fst (snd (getset_roundtrip cls a2 a w)) a2)"
proof -
  let ?e = "fst w a"
  let ?e7 = "(fst w a2)\<lparr>delay := delay ?e, noise_std := noise_std ?e,
      noise_p_std := noise_p_std ?e, thrust_tc := thrust_tc ?e, dt := dt ?e,
      ds_act := ds_act ?e, jitter_prob := jitter_prob ?e\<rparr>"
  obtain r e' g' where sd: "seed cls (seeds ?e) (?e7, snd w) = (r, (e', g'))"
    by (metis prod.exhaust)
  have "same_disturbance ?e7 e'"
    using assms sd unfolding seed_keeps_disturbance_def by (metis fst_conv snd_conv)
  then have keep: "same_disturbance ?e e'"
    by (simp add: same_disturbance_def)
  have "fst (snd (getset_roundtrip cls a2 a w)) a2 = e'"
    using sd
    by (cases r) (simp_all add: getset_roundtrip_def getset_env_def set_env_def
        lookup_get_env call_method_def Let_def)
  with keep show ?thesis by simp
qed

theorem getset_env_roundtrip_witness:
  "seed_keeps_disturbance toy_class \<and>
   same_disturbance (toy_env 3) (fst (snd (getset_roundtrip toy_class 5 3 (toy_heap, 0))) 5) \<and>
   delay (fst (snd (getset_roundtrip toy_class 5 3 (toy_heap, 0))) 5) = IntV 3 \<and>
   delay (toy_heap 5) = IntV 5"
  using getset_env_roundtrip [OF toy_seed_keeps, of "(toy_heap, 0)" 3 5]
  by (simp add: toy_seed_keeps toy_heap_def same_disturbance_def toy_env_def)


section \<open>Properties of randomize_env\<close>

lemma call_method_frame:
  "call_method m a w = (r, w') \<Longrightarrow> b \<noteq> a \<Longrightarrow> fst w' b = fst w b"
  by (auto simp: call_method_def split: prod.splits)

lemma call_method_result:
  "call_method m a w = (r, w') \<Longrightarrow> m (fst w a, snd w) = (r, (fst w' a, snd w'))"
  by (auto simp: call_method_def split: prod.splits)

text \<open>
  C10. \<open>randomize_env\<close> returns the reference it was given; no other object of the store is
  touched; and the object itself ends as the result of \<open>env.seed\<close> followed by
  \<open>env.checks\<close> on an object \<open>e\<close> that differs from the original in the seven disturbance
  attributes at most: every other attribute (\<open>seeds\<close> and the rest of the object) is, before
  these two calls, what it was.
\<close>

theorem randomize_env_frame:
  assumes "randomize_env np cls a cfg w = (Inr r, w')"
  shows "r = a \<and> (\<forall>b. b \<noteq> a \<longrightarrow> fst w' b = fst w b) \<and>
         (\<exists>e s g e1 g1. seeds e = seeds (fst w a) \<and> other e = other (fst w a) \<and>
            seed cls s (e, g) = (Inr (), (e1, g1)) \<and>
            checks cls (e1, g1) = (Inr (), (fst w' a, snd w')))"
proof -
  obtain r1 g1 where a1: "randint np (fst (r_delay cfg)) (snd (r_delay cfg)) (snd w) = (r1, g1)"
    by (metis surj_pair)
  obtain v1 where r1: "r1 = Inr v1"
    using assms a1 by (cases r1) (simp_all add: randomize_env_def)
  obtain v2 g2 where a2: "uniform np (fst (r_noise cfg)) (snd (r_noise cfg)) g1 = (v2, g2)"
    by (metis surj_pair)
  obtain v3 g3 where a3: "uniform np (fst (r_noise_p cfg)) (snd (r_noise_p cfg)) g2 = (v3, g3)"
    by (metis surj_pair)
  obtain v4 g4 where a4: "uniform np (fst (r_thrust_tc cfg)) (snd (r_thrust_tc cfg)) g3 = (v4, g4)"
    by (metis surj_pair)
  obtain v5 g5 where a5: "uniform np (fst (r_dt cfg)) (snd (r_dt cfg)) g4 = (v5, g5)"
    by (metis surj_pair)
  obtain r6 g6 where a6: "randint np (fst (r_ds_act cfg)) (snd (r_ds_act cfg)) g5 = (r6, g6)"
    by (metis surj_pair)
  obtain v6 where r6: "r6 = Inr v6"
    using assms a1 r1 a2 a3 a4 a5 a6 by (cases r6) (simp_all add: randomize_env_def)
  obtain v7 g7 where a7: "uniform np (fst (r_jitter cfg)) (snd (r_jitter cfg)) g6 = (v7, g7)"
    by (metis surj_pair)
  obtain r8 g8 where a8: "randint np 0 (r_seeds cfg) g7 = (r8, g8)"
    by (metis surj_pair)
  obtain s where r8: "r8 = Inr s"
    using assms a1 r1 a2 a3 a4 a5 a6 r6 a7 a8 by (cases r8) (simp_all add: randomize_env_def)
  let ?e = "(fst w a)\<lparr>delay := IntV v1, noise_std := FloatV v2,
              noise_p_std := FloatV v3, thrust_tc := FloatV v4, dt := FloatV v5,
              ds_act := IntV v6, jitter_prob := FloatV v7\<rparr>"
  obtain r9 w9 where a9: "call_method (seed cls (IntV s)) a ((fst w)(a := ?e), g8) = (r9, w9)"
    by (metis surj_pair)
  have red: "randomize_env np cls a cfg w =
      (case r9 of Inl err \<Rightarrow> (Inl err, w9)
       | Inr u \<Rightarrow> (case call_method (checks cls) a w9 of
            (Inl err, w10) \<Rightarrow> (Inl err, w10)
          | (Inr u', w10) \<Rightarrow> (Inr a, w10)))"
    using a1 r1 a2 a3 a4 a5 a6 r6 a7 a8 r8 a9 by (simp add: randomize_env_def)
  have r9: "r9 = Inr ()"
    using assms red by (cases r9) simp_all
  obtain r10 w10 where a10: "call_method (checks cls) a w9 = (r10, w10)"
    by (metis surj_pair)
  have fin: "r10 = Inr () \<and> r = a \<and> w10 = w'"
    using assms red r9 a10 by (cases r10) simp_all
  have sd: "call_method (seed cls (IntV s)) a ((fst w)(a := ?e), g8) = (Inr (), w9)"
    using a9 r9 by simp
  have ck: "call_method (checks cls) a w9 = (Inr (), w')"
    using a10 fin by simp
  have fr: "\<forall>b. b \<noteq> a \<longrightarrow> fst w' b = fst w b"
    using call_method_frame [OF sd] call_method_frame [OF ck] by simp
  have s1: "seed cls (IntV s) (?e, g8) = (Inr (), (fst w9 a, snd w9))"
    using call_method_result [OF sd] by simp
  have s2: "checks cls (fst w9 a, snd w9) = (Inr (), (fst w' a, snd w'))"
    using call_method_result [OF ck] by simp
  have "seeds ?e = seeds (fst w a) \<and> other ?e = other (fst w a)" by simp
  with s1 s2 have "\<exists>e s g e1 g1. seeds e = seeds (fst w a) \<and> other e = other (fst w a) \<and>
            seed cls s (e, g) = (Inr (), (e1, g1)) \<and>
            checks cls (e1, g1) = (Inr (), (fst w' a, snd w'))"
    by blast
  with fin fr show ?thesis by blast
qed

lemma toy_randomize:
  "randomize_env toy_np toy_class 2 toy_ranges (toy_heap, 5) =
     (Inr 2, (toy_heap(2 := \<lparr> delay = IntV 1, noise_std = FloatV 0, noise_p_std = FloatV 0,
        thrust_tc = FloatV 1, dt = FloatV 2, ds_act = IntV 1, jitter_prob = FloatV 0,
        seeds = IntV 12, other = 0 \<rparr>), 12))"
  by (simp add: randomize_env_def randint_def uniform_def toy_np_def toy_class_def
      toy_ranges_def toy_heap_def toy_env_def call_method_def)

theorem randomize_env_frame_witness:
  "randomize_env toy_np toy_class 2 toy_ranges (toy_heap, 5) =
     (Inr 2, (toy_heap(2 := \<lparr> delay = IntV 1, noise_std = FloatV 0, noise_p_std = FloatV 0,
        thrust_tc = FloatV 1, dt = FloatV 2, ds_act = IntV 1, jitter_prob = FloatV 0,
        seeds = IntV 12, other = 0 \<rparr>), 12)) \<and>
   fst (snd (randomize_env toy_np toy_class 2 toy_ranges (toy_heap, 5))) 3 = toy_heap 3 \<and>
   other (fst (snd (randomize_env toy_np toy_class 2 toy_ranges (toy_heap, 5))) 2)
     = other (toy_heap 2)"
  using randomize_env_frame [OF toy_randomize] toy_randomize
  by (simp add: toy_heap_def toy_env_def)
section \<open>Lists, maps with a random state, and sampling\<close>

lemma map_rng_length: "map_rng f xs g = (ys, g') \<Longrightarrow> length ys = length xs"
  by (induction xs arbitrary: g ys) (auto split: prod.splits)

lemma map_rng_nth:
  "map_rng f xs g = (ys, g') \<Longrightarrow> i < length xs \<Longrightarrow> \<exists>gi. ys ! i = fst (f (xs ! i) gi)"
proof (induction xs arbitrary: g ys i g')
  case Nil
  then show ?case by simp
next
  case (Cons x xs)
  obtain y g1 where fx: "f x g = (y, g1)" by (metis surj_pair)
  obtain zs g2 where rec: "map_rng f xs g1 = (zs, g2)" by (metis surj_pair)
  from Cons.prems(1) fx rec have ys: "ys = y # zs" by simp
  show ?case
  proof (cases i)
    case 0
    with ys fx show ?thesis by (metis fst_conv nth_Cons_0)
  next
    case (Suc k)
    with Cons.prems(2) have "k < length xs" by simp
    from Cons.IH [OF rec this] obtain gi where "zs ! k = fst (f (xs ! k) gi)" by blast
    with ys Suc show ?thesis by auto
  qed
qed

lemma initRepeat_length: "initRepeat f n g = (xs, g') \<Longrightarrow> length xs = n"
  by (induction n arbitrary: g xs) (auto split: prod.splits)

lemma assign_fitness_length:
  "length fits = length inds \<Longrightarrow> length (assign_fitness inds fits) = length inds"
  by (simp add: assign_fitness_def)

lemma sample_loop_length: "sample_loop rb pool m k g = (xs, g') \<Longrightarrow> length xs = k"
  by (induction k arbitrary: pool m g xs) (auto split: prod.splits)

lemma take_update_last:
  assumes "j < m" "m \<le> length pool"
  shows "mset (take (m - 1) (pool[j := pool ! (m - 1)])) + {#pool ! j#} = mset (take m pool)"
proof -
  from assms obtain n where m: "m = Suc n" by (cases m) auto
  have tk: "take (Suc n) pool = take n pool @ [pool ! n]"
    using assms m by (simp add: take_Suc_conv_app_nth)
  show ?thesis
  proof (cases "j = n")
    case True
    then show ?thesis using m tk by simp
  next
    case False
    with assms m have jn: "j < n" by simp
    have "take n (pool[j := pool ! n]) = (take n pool)[j := pool ! n]"
      by (simp add: take_update_swap)
    moreover have "j < length (take n pool)" using jn assms m by simp
    moreover have "take n pool ! j = pool ! j" using jn by simp
    moreover have "pool ! j \<in># mset (take n pool)"
      using jn assms m by (metis \<open>j < length (take n pool)\<close> \<open>take n pool ! j = pool ! j\<close> nth_mem_mset)
    ultimately show ?thesis using m tk
      by (simp add: mset_update)
  qed
qed

lemma sample_loop_mset:
  "sample_loop rb pool m k g = (xs, g') \<Longrightarrow> k \<le> m \<Longrightarrow> m \<le> length pool
     \<Longrightarrow> mset xs \<subseteq># mset (take m pool)"
proof (induction k arbitrary: pool m g xs g')
  case 0
  then show ?case by simp
next
  case (Suc k)
  obtain r g1 where rb: "rb g = (r, g1)" by (metis surj_pair)
  let ?j = "r mod m"
  let ?pool = "pool[?j := pool ! (m - 1)]"
  obtain ys g2 where rec: "sample_loop rb ?pool (m - 1) k g1 = (ys, g2)" by (metis surj_pair)
  from Suc.prems(1) rb rec have xs: "xs = pool ! ?j # ys" by simp
  from Suc.prems have mpos: "0 < m" by simp
  then have jm: "?j < m" by simp
  have "mset ys \<subseteq># mset (take (m - 1) ?pool)"
    using Suc.IH [OF rec] Suc.prems by simp
  then have "mset ys + {#pool ! ?j#} \<subseteq># mset (take (m - 1) ?pool) + {#pool ! ?j#}"
    by simp
  also have "\<dots> = mset (take m pool)"
    using take_update_last [OF jm Suc.prems(3)] .
  finally show ?case using xs by simp
qed

lemma random_sample_ok:
  assumes "k \<le> length xs"
  shows "\<exists>ys g'. random_sample rb xs k g = (Inr ys, g') \<and> length ys = k \<and> mset ys \<subseteq># mset xs"
proof -
  obtain ys g' where sl: "sample_loop rb xs (length xs) k g = (ys, g')" by (metis surj_pair)
  have "length ys = k" using sample_loop_length [OF sl] .
  moreover have "mset ys \<subseteq># mset xs" using sample_loop_mset [OF sl assms] by simp
  ultimately show ?thesis using sl assms by (simp add: random_sample_def)
qed

lemma random_sample_raises:
  "length xs < k \<Longrightarrow>
   random_sample rb xs k g = (Inl (ValueError ''Sample larger than population or is negative''), g)"
  by (simp add: random_sample_def)

section \<open>The padding step\<close>

lemma pad_others_sample:
  assumes "length others mod 4 \<noteq> 0" "4 - length others mod 4 \<le> length selection"
  shows "\<exists>smp g'. pad_others rb others selection g = (Inr (others @ smp), g') \<and>
           length smp = 4 - length others mod 4 \<and> mset smp \<subseteq># mset selection"
proof -
  from random_sample_ok [OF assms(2), of rb g] obtain smp g' where
    "random_sample rb selection (4 - length others mod 4) g = (Inr smp, g')"
    "length smp = 4 - length others mod 4" "mset smp \<subseteq># mset selection"
    by blast
  with assms(1) show ?thesis by (simp add: pad_others_def)
qed

lemma pad_others_result:
  assumes "pad_others rb others selection g = (Inr ys, g')"
  shows "\<exists>smp. ys = others @ smp \<and> mset smp \<subseteq># mset selection \<and> length ys mod 4 = 0"
proof (cases "length others mod 4 = 0")
  case True
  with assms show ?thesis by (simp add: pad_others_def)
next
  case False
  have le: "4 - length others mod 4 \<le> length selection"
  proof (rule ccontr)
    assume "\<not> ?thesis"
    then have "length selection < 4 - length others mod 4" by simp
    from random_sample_raises [OF this, of rb g] assms False show False
      by (simp add: pad_others_def)
  qed
  from pad_others_sample [OF False le, of rb g] assms obtain smp where
    ys: "ys = others @ smp" and len: "length smp = 4 - length others mod 4"
    and sub: "mset smp \<subseteq># mset selection"
    by auto
  have "(length others + (4 - length others mod 4)) mod 4 = 0"
    by presburger
  with ys len sub show ?thesis by simp
qed

text \<open>
  C2 (as amended). When the length of \<open>others\<close> is not a multiple of four and \<open>selection\<close>
  holds at least the \<open>4 - len(others) % 4\<close> individuals that are missing, \<open>others\<close> is
  extended to the next multiple of four by that many individuals of \<open>selection\<close>, drawn
  without replacement: the sample is a sub-multiset of \<open>selection\<close>, so no member is taken
  more often than it occurs there.
\<close>

theorem pad_others_without_replacement:
  assumes "length others mod 4 \<noteq> 0" "4 - length others mod 4 \<le> length selection"
  shows "\<exists>smp g'. pad_others rb others selection g = (Inr (others @ smp), g') \<and>
           length smp = 4 - length others mod 4 \<and> mset smp \<subseteq># mset selection \<and>
           length (others @ smp) = 4 * (length others div 4 + 1)"
proof -
  from pad_others_sample [OF assms, of rb g] obtain smp g' where
    p: "pad_others rb others selection g = (Inr (others @ smp), g')"
    and len: "length smp = 4 - length others mod 4"
    and sub: "mset smp \<subseteq># mset selection"
    by blast
  have "length others + (4 - length others mod 4) = 4 * (length others div 4 + 1)"
    by presburger
  with p len sub show ?thesis by auto
qed

theorem pad_others_without_replacement_witness:
  "length [3::nat] mod 4 \<noteq> 0 \<and> 4 - length [3::nat] mod 4 \<le> length [0, 1, 2::nat] \<and>
   (\<exists>smp g'. pad_others toy_draw [3::nat] [0, 1, 2] [0, 0, 0] = (Inr ([3] @ smp), g') \<and>
      length smp = 3 \<and> mset smp \<subseteq># mset [0, 1, 2] \<and> length ([3] @ smp) = 4)"
  using pad_others_without_replacement [of "[3::nat]" "[0, 1, 2::nat]" toy_draw "[0, 0, 0]"]
  by simp

text \<open>
  C2 (as stated) fails. With all raw draws equal to zero, sampling with replacement picks
  the first member of \<open>selection\<close> three times; the code picks three different members.
  And whatever the draws, the code never pads with one member taken three times, which
  sampling with replacement can do.
\<close>

theorem pad_others_with_replacement_counterexample:
  "pad_others toy_draw [3::nat] [0, 1, 2] [0, 0, 0] = (Inr [3, 0, 2, 1], []) \<and>
   pad_others_with_replacement toy_draw [3::nat] [0, 1, 2] [0, 0, 0] = (Inr [3, 0, 0, 0], []) \<and>
   \<not> (\<exists>g g'. pad_others toy_draw [3::nat] [0, 1, 2] g = (Inr [3, 0, 0, 0], g'))"
proof -
  have a: "pad_others toy_draw [3::nat] [0, 1, 2] [0, 0, 0] = (Inr [3, 0, 2, 1], [])"
    by code_simp
  have b: "pad_others_with_replacement toy_draw [3::nat] [0, 1, 2] [0, 0, 0]
             = (Inr [3, 0, 0, 0], [])"
    by code_simp
  have c: "\<not> (\<exists>g g'. pad_others toy_draw [3::nat] [0, 1, 2] g = (Inr [3, 0, 0, 0], g'))"
  proof
    assume "\<exists>g g'. pad_others toy_draw [3::nat] [0, 1, 2] g = (Inr [3, 0, 0, 0], g')"
    then obtain g g' where "pad_others toy_draw [3::nat] [0, 1, 2] g = (Inr [3, 0, 0, 0], g')"
      by blast
    from pad_others_result [OF this] have "mset [0, 0, 0::nat] \<subseteq># mset [0, 1, 2::nat]"
      by simp
    then have "count (mset [0, 0, 0::nat]) 0 \<le> count (mset [0, 1, 2::nat]) 0"
      by (rule mset_subset_eq_count)
    then show False by simp
  qed
  from a b c show ?thesis by blast
qed

text \<open>
  C5. The claim promises a padded list for every non-empty \<open>selection\<close>. With one
  individual in \<open>others\<close> and one in \<open>selection\<close> (a population of two in which one
  individual dominates the other), three individuals are asked of a list of one, and the
  sample raises instead.
\<close>

theorem pad_others_raises_on_small_selection:
  "pad_others rb [d] [a] g =
     (Inl (ValueError ''Sample larger than population or is negative''), g)"
  by (simp add: pad_others_def random_sample_def)

section \<open>The shape of a successful step\<close>

lemma evolve_step_Inr:
  assumes "evolve_step lib tb cfg gn s = Inr s'"
  shows "\<exists>front0 fronts others g1 chosen g2 offspring g3 fits_p g4 fits_o g5.
     sortNondominated lib (population s) (length (population s)) = front0 # fronts \<and>
     pad_others (getrandbits lib) (concat fronts) front0 (rng s) = (Inr others, g1) \<and>
     selTournamentDCD lib others (length others) g1 = (Inr chosen, g2) \<and>
     make_offspring tb (front0 @ chosen) (length (population s)) g2 = (offspring, g3) \<and>
     dask_map (evaluate tb) (population s) g3 = (fits_p, g4) \<and>
     dask_map (evaluate tb) offspring g4 = (fits_o, g5) \<and>
     s' = \<lparr> population = select tb (assign_fitness (population s) fits_p
                 @ assign_fitness offspring fits_o) (pop_size cfg),
            hof = pareto_update lib (hof s) (assign_fitness (population s) fits_p
                 @ assign_fitness offspring fits_o),
            logbook = logbook s @ [make_record lib gn
                 (length (assign_fitness offspring fits_o)
                  + length (select tb (assign_fitness (population s) fits_p
                      @ assign_fitness offspring fits_o) (pop_size cfg)))
                 (select tb (assign_fitness (population s) fits_p
                      @ assign_fitness offspring fits_o) (pop_size cfg))],
            trace = trace s
              @ map (EvMutate gn) (map clone (take (length (population s)) (front0 @ chosen)))
              @ map (EvEvaluate gn) (population s) @ map (EvEvaluate gn) offspring
              @ [EvArchive gn (assign_fitness (population s) fits_p
                     @ assign_fitness offspring fits_o),
                 EvSelect gn,
                 EvReport (make_record lib gn
                   (length (assign_fitness offspring fits_o)
                    + length (select tb (assign_fitness (population s) fits_p
                        @ assign_fitness offspring fits_o) (pop_size cfg)))
                   (select tb (assign_fitness (population s) fits_p
                        @ assign_fitness offspring fits_o) (pop_size cfg)))],
            rng = g5 \<rparr>"
proof -
  obtain front0 fronts where
    a1: "sortNondominated lib (population s) (length (population s)) = front0 # fronts"
    using assms
    by (cases "sortNondominated lib (population s) (length (population s))")
       (simp_all add: evolve_step_def)
  obtain r2 g1 where
    a2: "pad_others (getrandbits lib) (concat fronts) front0 (rng s) = (r2, g1)"
    by (metis surj_pair)
  obtain others where r2: "r2 = Inr others"
    using assms a1 a2 by (cases r2) (simp_all add: evolve_step_def)
  obtain r3 g2 where a3: "selTournamentDCD lib others (length others) g1 = (r3, g2)"
    by (metis surj_pair)
  obtain chosen where r3: "r3 = Inr chosen"
    using assms a1 a2 r2 a3 by (cases r3) (simp_all add: evolve_step_def)
  obtain offspring g3 where
    a4: "make_offspring tb (front0 @ chosen) (length (population s)) g2 = (offspring, g3)"
    by (metis surj_pair)
  obtain fits_p g4 where a5: "dask_map (evaluate tb) (population s) g3 = (fits_p, g4)"
    by (metis surj_pair)
  obtain fits_o g5 where a6: "dask_map (evaluate tb) offspring g4 = (fits_o, g5)"
    by (metis surj_pair)
  have "evolve_step lib tb cfg gn s = Inr \<lparr> population = select tb (assign_fitness (population s) fits_p
                 @ assign_fitness offspring fits_o) (pop_size cfg),
            hof = pareto_update lib (hof s) (assign_fitness (population s) fits_p
                 @ assign_fitness offspring fits_o),
            logbook = logbook s @ [make_record lib gn
                 (length (assign_fitness offspring fits_o)
                  + length (select tb (assign_fitness (population s) fits_p
                      @ assign_fitness offspring fits_o) (pop_size cfg)))
                 (select tb (assign_fitness (population s) fits_p
                      @ assign_fitness offspring fits_o) (pop_size cfg))],
            trace = trace s
              @ map (EvMutate gn) (map clone (take (length (population s)) (front0 @ chosen)))
              @ map (EvEvaluate gn) (population s) @ map (EvEvaluate gn) offspring
              @ [EvArchive gn (assign_fitness (population s) fits_p
                     @ assign_fitness offspring fits_o),
                 EvSelect gn,
                 EvReport (make_record lib gn
                   (length (assign_fitness offspring fits_o)
                    + length (select tb (assign_fitness (population s) fits_p
                        @ assign_fitness offspring fits_o) (pop_size cfg)))
                   (select tb (assign_fitness (population s) fits_p
                        @ assign_fitness offspring fits_o) (pop_size cfg)))],
            rng = g5 \<rparr>"
    using a1 a2 r2 a3 r3 a4 a5 a6 by (simp add: evolve_step_def Let_def)
  with assms a1 a2 r2 a3 r3 a4 a5 a6 show ?thesis by auto
qed

lemma evolve_step_facts:
  assumes "evolve_step lib tb cfg gn s = Inr s'"
  shows "\<exists>selection offspring pop1 off1 g2 g3 r.
     make_offspring tb selection (length (population s)) g2 = (offspring, g3) \<and>
     length pop1 = length (population s) \<and> length off1 = length offspring \<and>
     population s' = select tb (pop1 @ off1) (pop_size cfg) \<and>
     logbook s' = logbook s @ [r] \<and> gen r = gn \<and>
     evals r = length off1 + length (population s') \<and>
     trace s' = trace s
        @ map (EvMutate gn) (map clone (take (length (population s)) selection))
        @ map (EvEvaluate gn) (population s) @ map (EvEvaluate gn) offspring
        @ [EvArchive gn (pop1 @ off1), EvSelect gn, EvReport r]"
proof -
  from evolve_step_Inr [OF assms] obtain front0 fronts others g1 chosen g2 offspring g3
      fits_p g4 fits_o g5 where
    mk: "make_offspring tb (front0 @ chosen) (length (population s)) g2 = (offspring, g3)"
    and ep: "dask_map (evaluate tb) (population s) g3 = (fits_p, g4)"
    and eo: "dask_map (evaluate tb) offspring g4 = (fits_o, g5)"
    and s': "s' = \<lparr> population = select tb (assign_fitness (population s) fits_p
                 @ assign_fitness offspring fits_o) (pop_size cfg),
            hof = pareto_update lib (hof s) (assign_fitness (population s) fits_p
                 @ assign_fitness offspring fits_o),
            logbook = logbook s @ [make_record lib gn
                 (length (assign_fitness offspring fits_o)
                  + length (select tb (assign_fitness (population s) fits_p
                      @ assign_fitness offspring fits_o) (pop_size cfg)))
                 (select tb (assign_fitness (population s) fits_p
                      @ assign_fitness offspring fits_o) (pop_size cfg))],
            trace = trace s
              @ map (EvMutate gn) (map clone (take (length (population s)) (front0 @ chosen)))
              @ map (EvEvaluate gn) (population s) @ map (EvEvaluate gn) offspring
              @ [EvArchive gn (assign_fitness (population s) fits_p
                     @ assign_fitness offspring fits_o),
                 EvSelect gn,
                 EvReport (make_record lib gn
                   (length (assign_fitness offspring fits_o)
                    + length (select tb (assign_fitness (population s) fits_p
                        @ assign_fitness offspring fits_o) (pop_size cfg)))
                   (select tb (assign_fitness (population s) fits_p
                        @ assign_fitness offspring fits_o) (pop_size cfg)))],
            rng = g5 \<rparr>"
    by blast
  let ?pop1 = "assign_fitness (population s) fits_p"
  let ?off1 = "assign_fitness offspring fits_o"
  let ?r = "make_record lib gn (length ?off1 + length (select tb (?pop1 @ ?off1) (pop_size cfg)))
              (select tb (?pop1 @ ?off1) (pop_size cfg))"
  have lp: "length ?pop1 = length (population s)"
    using map_rng_length [of "evaluate tb" "population s" g3 fits_p g4] ep
    by (simp add: dask_map_def assign_fitness_length)
  have lo: "length ?off1 = length offspring"
    using map_rng_length [of "evaluate tb" offspring g4 fits_o g5] eo
    by (simp add: dask_map_def assign_fitness_length)
  have p: "population s' = select tb (?pop1 @ ?off1) (pop_size cfg)" using s' by simp
  have l: "logbook s' = logbook s @ [?r]" using s' by simp
  have g: "gen ?r = gn" by (simp add: make_record_def)
  have e: "evals ?r = length ?off1 + length (population s')"
    using p by (simp add: make_record_def)
  have t: "trace s' = trace s
        @ map (EvMutate gn) (map clone (take (length (population s)) (front0 @ chosen)))
        @ map (EvEvaluate gn) (population s) @ map (EvEvaluate gn) offspring
        @ [EvArchive gn (?pop1 @ ?off1), EvSelect gn, EvReport ?r]"
    using s' by simp
  from mk lp lo p l g e t show ?thesis by blast
qed

lemma evolve_loop_upt:
  assumes step: "\<And>k t t'. m \<le> k \<Longrightarrow> k < n \<Longrightarrow> I k t
                   \<Longrightarrow> evolve_step lib tb cfg (Suc k) t = Inr t' \<Longrightarrow> I (Suc k) t'"
  shows "m \<le> n \<Longrightarrow> I m s \<Longrightarrow> evolve_loop lib tb cfg [Suc m..<Suc n] s = Inr s' \<Longrightarrow> I n s'"
  using step
proof (induction "n - m" arbitrary: m s)
  case 0
  then show ?case by simp
next
  case (Suc d)
  then have lt: "m < n" by simp
  then have up: "[Suc m..<Suc n] = Suc m # [Suc (Suc m)..<Suc n]"
    by (simp add: upt_conv_Cons)
  from Suc.prems(3) up obtain t where
    st: "evolve_step lib tb cfg (Suc m) s = Inr t"
    and lp: "evolve_loop lib tb cfg [Suc (Suc m)..<Suc n] t = Inr s'"
    by (auto split: sum.splits)
  have It: "I (Suc m) t" using Suc.prems(4) [OF _ lt Suc.prems(2) st] by simp
  have d: "d = n - Suc m" using Suc.hyps(2) by simp
  show ?case
  proof (rule Suc.hyps(1) [OF d _ It lp])
    show "Suc m \<le> n" using lt by simp
  next
    fix k t t'
    assume "Suc m \<le> k" "k < n" "I k t" "evolve_step lib tb cfg (Suc k) t = Inr t'"
    then show "I (Suc k) t'" using Suc.prems(4) [of k t t'] by simp
  qed
qed

section \<open>The invariant of the generations\<close>

lemma count_evals_append: "count_evals g (xs @ ys) = count_evals g xs + count_evals g ys"
  by (simp add: count_evals_def)

lemma count_evals_map_eval:
  "count_evals g (map (EvEvaluate g') xs) = (if g' = g then length xs else 0)"
  by (induction xs) (simp_all add: count_evals_def)

lemma count_evals_map_mutate: "count_evals g (map (EvMutate g') xs) = 0"
  by (induction xs) (simp_all add: count_evals_def)

lemma count_evals_later:
  "\<forall>e \<in> set tr. event_gen e \<le> n \<Longrightarrow> n < g \<Longrightarrow> count_evals g tr = 0"
proof (induction tr)
  case Nil
  then show ?case by (simp add: count_evals_def)
next
  case (Cons e tr)
  then have "count_evals g tr = 0" by simp
  moreover have "\<not> is_evaluate g e" using Cons.prems by (cases e) auto
  ultimately show ?case by (simp add: count_evals_def)
qed

lemma generation_zero_inv:
  assumes sel: "\<And>xs k. k \<le> length xs \<Longrightarrow> length (select tb xs k) = k"
  shows "gen_inv cfg 0 (generation_zero lib tb env cfg g)"
proof -
  obtain pop0 g1 where a1: "initRepeat (individual tb) (pop_size cfg) (env g) = (pop0, g1)"
    by (metis surj_pair)
  obtain fits g2 where a2: "dask_map (evaluate tb) pop0 g1 = (fits, g2)"
    by (metis surj_pair)
  let ?pop1 = "assign_fitness pop0 fits"
  let ?pop2 = "select tb ?pop1 (length ?pop1)"
  let ?r = "make_record lib 0 (length ?pop2) ?pop2"
  have gz: "generation_zero lib tb env cfg g =
      \<lparr> population = ?pop2, hof = pareto_update lib [] ?pop2, logbook = [?r],
        trace = [EvEnvInit, EvPopInit (pop_size cfg)] @ map (EvEvaluate 0) pop0
               @ [EvSelect 0, EvReport ?r, EvArchive 0 ?pop2],
        rng = g2 \<rparr>"
    using a1 a2 by (simp add: generation_zero_def Let_def)
  have l0: "length pop0 = pop_size cfg" using initRepeat_length [OF a1] .
  have l1: "length ?pop1 = pop_size cfg"
    using map_rng_length [of "evaluate tb" pop0 g1 fits g2] a2 l0
    by (simp add: dask_map_def assign_fitness_length)
  have l2: "length ?pop2 = pop_size cfg" using sel [of "length ?pop1" ?pop1] l1 by simp
  have c: "count_evals 0 (trace (generation_zero lib tb env cfg g)) = pop_size cfg"
    using l0 by (simp add: gz count_evals_def)
  have ev: "\<forall>e \<in> set (trace (generation_zero lib tb env cfg g)). event_gen e \<le> 0"
    by (auto simp: gz make_record_def)
  show ?thesis
    unfolding gen_inv_def
    using l2 c ev by (simp add: gz make_record_def)
qed

lemma evolve_step_inv:
  assumes sel: "\<And>xs k. k \<le> length xs \<Longrightarrow> length (select tb xs k) = k"
    and inv: "gen_inv cfg k t"
    and st: "evolve_step lib tb cfg (Suc k) t = Inr t'"
  shows "gen_inv cfg (Suc k) t'"
proof -
  from evolve_step_facts [OF st] obtain selection offspring pop1 off1 g2 g3 r where
    lp: "length pop1 = length (population t)" and lo: "length off1 = length offspring"
    and p: "population t' = select tb (pop1 @ off1) (pop_size cfg)"
    and l: "logbook t' = logbook t @ [r]" and g: "gen r = Suc k"
    and e: "evals r = length off1 + length (population t')"
    and tr: "trace t' = trace t
        @ map (EvMutate (Suc k)) (map clone (take (length (population t)) selection))
        @ map (EvEvaluate (Suc k)) (population t) @ map (EvEvaluate (Suc k)) offspring
        @ [EvArchive (Suc k) (pop1 @ off1), EvSelect (Suc k), EvReport r]"
    by blast
  from inv have ip: "length (population t) = pop_size cfg"
    and il: "length (logbook t) = Suc k"
    and ir: "\<forall>i \<le> k. gen (logbook t ! i) = i \<and>
               evals (logbook t ! i) = count_evals i (trace t) \<and>
               EvReport (logbook t ! i) \<in> set (trace t)"
    and ie: "\<forall>e \<in> set (trace t). event_gen e \<le> k"
    by (simp_all add: gen_inv_def)
  have np: "length (population t') = pop_size cfg"
    using sel [of "pop_size cfg" "pop1 @ off1"] p lp ip by simp
  have nl: "length (logbook t') = Suc (Suc k)" using l il by simp
  have old: "count_evals (Suc k) (trace t) = 0"
    using count_evals_later [OF ie] by simp
  have cnew: "count_evals (Suc k) (trace t') = length (population t) + length offspring"
    using old
    by (simp add: tr count_evals_append count_evals_map_eval count_evals_map_mutate)
       (simp add: count_evals_def)
  have cold: "\<And>i. i \<le> k \<Longrightarrow> count_evals i (trace t') = count_evals i (trace t)"
    by (simp add: tr count_evals_append count_evals_map_eval count_evals_map_mutate)
       (simp add: count_evals_def)
  have rec: "\<forall>i \<le> Suc k. gen (logbook t' ! i) = i \<and>
               evals (logbook t' ! i) = count_evals i (trace t') \<and>
               EvReport (logbook t' ! i) \<in> set (trace t')"
  proof (intro allI impI)
    fix i assume i: "i \<le> Suc k"
    show "gen (logbook t' ! i) = i \<and> evals (logbook t' ! i) = count_evals i (trace t') \<and>
               EvReport (logbook t' ! i) \<in> set (trace t')"
    proof (cases "i = Suc k")
      case True
      then have "logbook t' ! i = r" using l il by (simp add: nth_append)
      moreover have "EvReport r \<in> set (trace t')" by (simp add: tr)
      ultimately show ?thesis using True g e lo np ip cnew by simp
    next
      case False
      with i have ik: "i \<le> k" by simp
      then have "logbook t' ! i = logbook t ! i" using l il by (simp add: nth_append)
      moreover have "EvReport (logbook t ! i) \<in> set (trace t')"
        using ir ik by (simp add: tr)
      ultimately show ?thesis using ir ik cold [OF ik] by simp
    qed
  qed
  have ev: "\<forall>e \<in> set (trace t'). event_gen e \<le> Suc k"
    using ie g by (auto simp: tr)
  show ?thesis unfolding gen_inv_def using np nl rec ev by blast
qed

lemma make_toolbox_select:
  "make_toolbox lib cfg = Inr (tb, env) \<Longrightarrow> select tb = selNSGA2 lib"
  by (auto simp: make_toolbox_def Let_def split: if_splits)

lemma end_of_generation_inv:
  assumes sel: "selNSGA2_exact lib" and run: "end_of_generation lib cfg g n = Inr s"
  shows "gen_inv cfg n s"
proof -
  from run obtain tb env where mt: "make_toolbox lib cfg = Inr (tb, env)"
    and lp: "evolve_loop lib tb cfg [Suc 0..<Suc n] (generation_zero lib tb env cfg g) = Inr s"
    by (auto simp: end_of_generation_def split: sum.splits)
  have ex: "\<And>xs k. k \<le> length xs \<Longrightarrow> length (select tb xs k) = k"
    using sel make_toolbox_select [OF mt] by (simp add: selNSGA2_exact_def)
  have z: "gen_inv cfg 0 (generation_zero lib tb env cfg g)"
    using generation_zero_inv [of tb cfg lib env g] ex by blast
  show ?thesis
  proof (rule evolve_loop_upt [where I = "gen_inv cfg" and m = 0, OF _ _ z lp])
    show "0 \<le> n" by simp
  next
    fix k t t'
    assume "gen_inv cfg k t" "evolve_step lib tb cfg (Suc k) t = Inr t'"
    then show "gen_inv cfg (Suc k) t'"
      using evolve_step_inv [of tb cfg k t lib t'] ex by blast
  qed
qed

section \<open>The order of the events\<close>













section \<open>The sample run and the whole run\<close>

lemma toy_selNSGA2_exact: "selNSGA2_exact toy_lib"
  by (simp add: selNSGA2_exact_def toy_lib_def)

lemma toy_make_toolbox: "make_toolbox toy_lib toy_config = Inr (toy_toolbox, \<lambda>g. g)"
  by (simp add: make_toolbox_def toy_lib_def toy_config_def toy_toolbox_def)

lemma toy_run_ok: "\<exists>s. end_of_generation toy_lib toy_config toy_draws 1 = Inr s"
proof -
  have "\<not> isl (end_of_generation toy_lib toy_config toy_draws 1)"
    by code_simp
  then show ?thesis by (cases "end_of_generation toy_lib toy_config toy_draws 1") auto
qed


lemma main_end_of_generation: "main lib cfg g = end_of_generation lib cfg g (gens cfg - 1)"
proof -
  have "[1..<gens cfg] = [1..<Suc (gens cfg - 1)]"
    by (cases "gens cfg") simp_all
  then show ?thesis by (simp only: main_def end_of_generation_def)
qed


lemma toy_state0_size: "length (population toy_state0) = pop_size toy_config"
  by code_simp

lemma toy_step_ok: "\<exists>s'. evolve_step toy_lib toy_toolbox toy_config 1 toy_state0 = Inr s'"
proof -
  have "\<not> isl (evolve_step toy_lib toy_toolbox toy_config 1 toy_state0)"
    by code_simp
  then show ?thesis
    by (cases "evolve_step toy_lib toy_toolbox toy_config 1 toy_state0") auto
qed

lemma toy_step_offspring:
  "(case evolve_step toy_lib toy_toolbox toy_config 1 toy_state0 of
      Inl e \<Rightarrow> False
    | Inr s' \<Rightarrow>
        filter (is_evaluate 1) (new_events toy_state0 s') =
          map (EvEvaluate 1)
            [\<lparr> genome = 10, fitness = [1, 5, 0], crowding_dist = None \<rparr>,
             \<lparr> genome = 20, fitness = [1, 5, 0], crowding_dist = None \<rparr>,
             \<lparr> genome = 13, fitness = [1, 5, 0], crowding_dist = None \<rparr>,
             \<lparr> genome = 24, fitness = [1, 5, 0], crowding_dist = None \<rparr>])"
  by code_simp

text \<open>
  The states \<open>end_of_generation 0, 1, ...\<close> are the states the run passes through: each is
  obtained from the one before by the loop body, and a run that completes generation \<open>n\<close>
  has completed every earlier generation.
\<close>

lemma evolve_loop_append:
  "evolve_loop lib tb cfg (xs @ ys) s =
     (case evolve_loop lib tb cfg xs s of
        Inl err \<Rightarrow> Inl err
      | Inr t \<Rightarrow> evolve_loop lib tb cfg ys t)"
  by (induction xs arbitrary: s) (auto split: sum.splits)

lemma evolve_loop_single:
  "evolve_loop lib tb cfg [k] s = evolve_step lib tb cfg k s"
  by (cases "evolve_step lib tb cfg k s") simp_all

lemma end_of_generation_Suc:
  assumes "make_toolbox lib cfg = Inr (tb, env)"
  shows "end_of_generation lib cfg g (Suc n) =
     (case end_of_generation lib cfg g n of
        Inl err \<Rightarrow> Inl err
      | Inr s \<Rightarrow> evolve_step lib tb cfg (Suc n) s)"
proof -
  have "[1..<Suc (Suc n)] = [1..<Suc n] @ [Suc n]" by simp
  then show ?thesis
    using assms
    by (simp only: end_of_generation_def evolve_loop_append evolve_loop_single
          sum.case prod.case)
qed

lemma end_of_generation_prefix:
  assumes "end_of_generation lib cfg g n = Inr s" and "m \<le> n"
  shows "\<exists>t. end_of_generation lib cfg g m = Inr t"
  using assms
proof (induction n arbitrary: s)
  case 0
  then show ?case by simp
next
  case (Suc n)
  show ?case
  proof (cases "m = Suc n")
    case True
    with Suc.prems show ?thesis by blast
  next
    case False
    with Suc.prems have mn: "m \<le> n" by simp
    from Suc.prems(1) obtain tb env where mt: "make_toolbox lib cfg = Inr (tb, env)"
      by (auto simp: end_of_generation_def split: sum.splits)
    from Suc.prems(1) end_of_generation_Suc [OF mt, of g n]
    obtain t where "end_of_generation lib cfg g n = Inr t"
      by (cases "end_of_generation lib cfg g n") auto
    from Suc.IH [OF this mn] show ?thesis .
  qed
qed

section \<open>Population size\<close>

text \<open>
  C3. At the end of every generation \<open>n\<close> that the run completes, generation zero included,
  the population holds exactly \<open>pop size\<close> individuals. The selector of the evolutionary
  library is taken at its contract (asked for \<open>k\<close> out of at least \<open>k\<close>, it returns \<open>k\<close>);
  \<open>end_of_generation n\<close> is the state of \<open>main\<close> once the loop body has run for the
  generations up to \<open>n\<close>, and \<open>main\<close> itself returns \<open>end_of_generation (gens - 1)\<close>.
\<close>

theorem population_size_invariant:
  assumes "selNSGA2_exact lib" and "end_of_generation lib cfg g n = Inr s"
  shows "length (population s) = pop_size cfg"
  using end_of_generation_inv [OF assms] by (simp add: gen_inv_def)

theorem population_size_invariant_witness:
  "selNSGA2_exact toy_lib \<and>
   (\<exists>s. end_of_generation toy_lib toy_config toy_draws 1 = Inr s \<and>
        length (population s) = 2)"
proof -
  from toy_run_ok obtain s where s: "end_of_generation toy_lib toy_config toy_draws 1 = Inr s"
    by blast
  from population_size_invariant [OF toy_selNSGA2_exact s]
  have "length (population s) = 2" by (simp add: toy_config_def)
  with s toy_selNSGA2_exact show ?thesis by blast
qed

section \<open>The report of a generation\<close>



section \<open>Unknown keys\<close>

text \<open>
  C6. A configuration whose network is neither \<open>ANN\<close> nor \<open>SNN\<close>, or whose scenario is
  neither \<open>hover\<close> nor \<open>landing\<close>, makes \<open>main\<close> raise \<open>KeyError\<close> at once: no event has
  happened (no environment constructed, no population initialised, nothing evaluated) and
  not one random draw has been consumed.
\<close>

theorem unknown_key_raises_first:
  assumes "network cfg \<notin> {''ANN'', ''SNN''} \<or> scenario cfg \<notin> {''hover'', ''landing''}"
  shows "\<exists>msg. main lib cfg g =
           Inl (KeyError msg, \<lparr> population = [], hof = [], logbook = [], trace = [], rng = g \<rparr>)"
  using assms by (auto simp: main_def make_toolbox_def initial_state_def)

theorem unknown_key_raises_first_witness:
  "network bad_config \<notin> {''ANN'', ''SNN''} \<and>
   main toy_lib bad_config toy_draws =
     Inl (KeyError ''Not a valid network key!'',
          \<lparr> population = [], hof = [], logbook = [], trace = [], rng = toy_draws \<rparr>)"
proof -
  have b: "network bad_config \<notin> {''ANN'', ''SNN''}" by (simp add: bad_config_def)
  then have "network bad_config \<notin> {''ANN'', ''SNN''} \<or>
             scenario bad_config \<notin> {''hover'', ''landing''}" by simp
  from unknown_key_raises_first [OF this, of toy_lib toy_draws] obtain msg where
    m: "main toy_lib bad_config toy_draws =
       Inl (KeyError msg, \<lparr> population = [], hof = [], logbook = [], trace = [], rng = toy_draws \<rparr>)"
    by blast
  have "main toy_lib bad_config toy_draws =
       Inl (KeyError ''Not a valid network key!'', initial_state toy_draws)"
    by (simp add: main_def make_toolbox_def bad_config_def)
  with m b show ?thesis by (simp add: initial_state_def)
qed

section \<open>Mutation, evaluation and the archive\<close>




section \<open>Offspring\<close>

lemma filter_mutate_events:
  "filter (is_mutate g) (map (EvMutate g) xs) = map (EvMutate g) xs"
  "filter (is_mutate g) (map (EvEvaluate g) ys) = []"
  by (induction xs) (simp_all add: filter_empty_conv)

lemma filter_evaluate_events:
  "filter (is_evaluate g) (map (EvEvaluate g) xs) = map (EvEvaluate g) xs"
  "filter (is_evaluate g) (map (EvMutate g) ys) = []"
  by (induction xs) (simp_all add: filter_empty_conv)

lemma evolve_step_mate:
  "evolve_step (lib\<lparr>crossover_none := c\<rparr>) (tb\<lparr>mate := m\<rparr>) cfg gn s = evolve_step lib tb cfg gn s"
proof -
  have e1: "make_offspring (tb\<lparr>mate := m\<rparr>) = make_offspring tb"
    by (simp add: fun_eq_iff make_offspring_def)
  have e2: "make_record (lib\<lparr>crossover_none := c\<rparr>) = make_record lib"
    by (simp add: fun_eq_iff make_record_def)
  have e3: "getrandbits (lib\<lparr>crossover_none := c\<rparr>) = getrandbits lib"
    "sortNondominated (lib\<lparr>crossover_none := c\<rparr>) = sortNondominated lib"
    "selTournamentDCD (lib\<lparr>crossover_none := c\<rparr>) = selTournamentDCD lib"
    "pareto_update (lib\<lparr>crossover_none := c\<rparr>) = pareto_update lib"
    "evaluate (tb\<lparr>mate := m\<rparr>) = evaluate tb"
    "select (tb\<lparr>mate := m\<rparr>) = select tb"
    by simp_all
  show ?thesis unfolding evolve_step_def e1 e2 e3 ..
qed

lemma evolve_loop_mate:
  "evolve_loop (lib\<lparr>crossover_none := c\<rparr>) (tb\<lparr>mate := m\<rparr>) cfg gs s = evolve_loop lib tb cfg gs s"
  by (induction gs arbitrary: s) (simp_all add: evolve_step_mate cong: sum.case_cong)

lemma generation_zero_mate:
  "generation_zero (lib\<lparr>crossover_none := c\<rparr>) (tb\<lparr>mate := m\<rparr>) env cfg g
     = generation_zero lib tb env cfg g"
proof -
  have e2: "make_record (lib\<lparr>crossover_none := c\<rparr>) = make_record lib"
    by (simp add: fun_eq_iff make_record_def)
  have e3: "pareto_update (lib\<lparr>crossover_none := c\<rparr>) = pareto_update lib"
    "evaluate (tb\<lparr>mate := m\<rparr>) = evaluate tb"
    "select (tb\<lparr>mate := m\<rparr>) = select tb"
    "individual (tb\<lparr>mate := m\<rparr>) = individual tb"
    by simp_all
  show ?thesis unfolding generation_zero_def e2 e3 ..
qed

lemma make_toolbox_mate:
  "make_toolbox (lib\<lparr>crossover_none := c\<rparr>) cfg =
     (case make_toolbox lib cfg of
        Inl err \<Rightarrow> Inl err
      | Inr (tb, env) \<Rightarrow> Inr (tb\<lparr>mate := c\<rparr>, env))"
  by (simp add: make_toolbox_def Let_def)

lemma main_mate: "main (lib\<lparr>crossover_none := c\<rparr>) cfg g = main lib cfg g"
  by (cases "make_toolbox lib cfg")
     (auto simp: main_def make_toolbox_mate evolve_loop_mate generation_zero_mate)

text \<open>
  C4. In a step that starts from a population of \<open>pop size\<close> individuals, \<open>selection\<close> is the
  first front extended by the outcome of the tournament, and the offspring are the
  mutated clones of its first \<open>pop size\<close> members, one offspring per parent and in the
  parents' order (\<open>selection\<close> is clipped when it is longer): the mutations of the step are
  exactly those of the clones, and the evaluations of the step are those of the population
  followed by those of the offspring. No crossover is applied: whatever operator is
  registered as \<open>mate\<close>, the step and the whole run are the same.
\<close>

theorem offspring_by_clone_and_mutation:
  assumes "length (population s) = pop_size cfg"
    and "evolve_step lib tb cfg gn s = Inr s'"
  shows "\<exists>front0 fronts others chosen g1 g2 offspring.
      sortNondominated lib (population s) (length (population s)) = front0 # fronts \<and>
      selTournamentDCD lib others (length others) g1 = (Inr chosen, g2) \<and>
      length offspring = min (pop_size cfg) (length (front0 @ chosen)) \<and>
      (\<forall>i < length offspring.
          \<exists>g'. offspring ! i = fst (mutate tb (clone ((front0 @ chosen) ! i)) g')) \<and>
      filter (is_mutate gn) (new_events s s')
          = map (EvMutate gn) (map clone (take (pop_size cfg) (front0 @ chosen))) \<and>
      filter (is_evaluate gn) (new_events s s')
          = map (EvEvaluate gn) (population s @ offspring) \<and>
      evolve_step (lib\<lparr>crossover_none := c\<rparr>) (tb\<lparr>mate := m\<rparr>) cfg gn s = Inr s' \<and>
      main (lib\<lparr>crossover_none := c\<rparr>) cfg g0 = main lib cfg g0"
proof -
  from evolve_step_Inr [OF assms(2)] obtain front0 fronts others g1 chosen g2 offspring g3
      fits_p g4 fits_o g5 where
    sn: "sortNondominated lib (population s) (length (population s)) = front0 # fronts"
    and to: "selTournamentDCD lib others (length others) g1 = (Inr chosen, g2)"
    and mk: "make_offspring tb (front0 @ chosen) (length (population s)) g2 = (offspring, g3)"
    and s': "s' = \<lparr> population = select tb (assign_fitness (population s) fits_p
                 @ assign_fitness offspring fits_o) (pop_size cfg),
            hof = pareto_update lib (hof s) (assign_fitness (population s) fits_p
                 @ assign_fitness offspring fits_o),
            logbook = logbook s @ [make_record lib gn
                 (length (assign_fitness offspring fits_o)
                  + length (select tb (assign_fitness (population s) fits_p
                      @ assign_fitness offspring fits_o) (pop_size cfg)))
                 (select tb (assign_fitness (population s) fits_p
                      @ assign_fitness offspring fits_o) (pop_size cfg))],
            trace = trace s
              @ map (EvMutate gn) (map clone (take (length (population s)) (front0 @ chosen)))
              @ map (EvEvaluate gn) (population s) @ map (EvEvaluate gn) offspring
              @ [EvArchive gn (assign_fitness (population s) fits_p
                     @ assign_fitness offspring fits_o),
                 EvSelect gn,
                 EvReport (make_record lib gn
                   (length (assign_fitness offspring fits_o)
                    + length (select tb (assign_fitness (population s) fits_p
                        @ assign_fitness offspring fits_o) (pop_size cfg)))
                   (select tb (assign_fitness (population s) fits_p
                        @ assign_fitness offspring fits_o) (pop_size cfg)))],
            rng = g5 \<rparr>"
    by blast
  let ?sel = "front0 @ chosen"
  have mr: "map_rng (\<lambda>ind. mutate tb (clone ind)) (take (pop_size cfg) ?sel) g2 = (offspring, g3)"
    using mk assms(1) by (simp add: make_offspring_def)
  have len: "length offspring = min (pop_size cfg) (length ?sel)"
    using map_rng_length [OF mr] by (simp add: min.commute)
  have nth: "\<forall>i < length offspring. \<exists>g'. offspring ! i = fst (mutate tb (clone (?sel ! i)) g')"
  proof (intro allI impI)
    fix i assume i: "i < length offspring"
    then have il: "i < length (take (pop_size cfg) ?sel)"
      using map_rng_length [OF mr] by simp
    from map_rng_nth [OF mr il] obtain g' where
      "offspring ! i = fst (mutate tb (clone (take (pop_size cfg) ?sel ! i)) g')"
      by blast
    moreover have "i < pop_size cfg" using il by simp
    then have "take (pop_size cfg) ?sel ! i = ?sel ! i" by (rule nth_take)
    ultimately show "\<exists>g'. offspring ! i = fst (mutate tb (clone (?sel ! i)) g')"
      by auto
  qed
  have ne: "new_events s s' =
      map (EvMutate gn) (map clone (take (pop_size cfg) ?sel))
        @ map (EvEvaluate gn) (population s) @ map (EvEvaluate gn) offspring
        @ [EvArchive gn (assign_fitness (population s) fits_p
                     @ assign_fitness offspring fits_o),
           EvSelect gn,
           EvReport (make_record lib gn
                   (length (assign_fitness offspring fits_o)
                    + length (select tb (assign_fitness (population s) fits_p
                        @ assign_fitness offspring fits_o) (pop_size cfg)))
                   (select tb (assign_fitness (population s) fits_p
                        @ assign_fitness offspring fits_o) (pop_size cfg)))]"
    using s' assms(1) by (simp add: new_events_def)
  have fm: "filter (is_mutate gn) (new_events s s')
          = map (EvMutate gn) (map clone (take (pop_size cfg) ?sel))"
    unfolding ne by (simp add: filter_mutate_events)
  have fe: "filter (is_evaluate gn) (new_events s s')
          = map (EvEvaluate gn) (population s @ offspring)"
    unfolding ne by (simp add: filter_evaluate_events)
  have st: "evolve_step (lib\<lparr>crossover_none := c\<rparr>) (tb\<lparr>mate := m\<rparr>) cfg gn s = Inr s'"
    using assms(2) by (simp add: evolve_step_mate)
  have mn: "main (lib\<lparr>crossover_none := c\<rparr>) cfg g0 = main lib cfg g0"
    by (rule main_mate)
  from sn to len nth fm fe st mn show ?thesis by blast
qed

theorem offspring_by_clone_and_mutation_witness:
  "length (population toy_state0) = pop_size toy_config \<and>
   (\<exists>s'. evolve_step toy_lib toy_toolbox toy_config 1 toy_state0 = Inr s' \<and>
      (\<exists>selection offspring.
         length offspring = min (pop_size toy_config) (length selection) \<and>
         filter (is_mutate 1) (new_events toy_state0 s')
            = map (EvMutate 1) (map clone (take (pop_size toy_config) selection)) \<and>
         filter (is_evaluate 1) (new_events toy_state0 s')
            = map (EvEvaluate 1) (population toy_state0 @ offspring)) \<and>
      filter (is_evaluate 1) (new_events toy_state0 s') =
          map (EvEvaluate 1)
            [\<lparr> genome = 10, fitness = [1, 5, 0], crowding_dist = None \<rparr>,
             \<lparr> genome = 20, fitness = [1, 5, 0], crowding_dist = None \<rparr>,
             \<lparr> genome = 13, fitness = [1, 5, 0], crowding_dist = None \<rparr>,
             \<lparr> genome = 24, fitness = [1, 5, 0], crowding_dist = None \<rparr>])"
proof -
  from toy_step_ok obtain s' where
    s': "evolve_step toy_lib toy_toolbox toy_config 1 toy_state0 = Inr s'"
    by blast
  from offspring_by_clone_and_mutation [OF toy_state0_size s']
  obtain front0 chosen offspring where
    "length offspring = min (pop_size toy_config) (length (front0 @ chosen))"
    "filter (is_mutate 1) (new_events toy_state0 s')
        = map (EvMutate 1) (map clone (take (pop_size toy_config) (front0 @ chosen)))"
    "filter (is_evaluate 1) (new_events toy_state0 s')
        = map (EvEvaluate 1) (population toy_state0 @ offspring)"
    by blast
  then have a: "\<exists>selection offspring.
         length offspring = min (pop_size toy_config) (length selection) \<and>
         filter (is_mutate 1) (new_events toy_state0 s')
            = map (EvMutate 1) (map clone (take (pop_size toy_config) selection)) \<and>
         filter (is_evaluate 1) (new_events toy_state0 s')
            = map (EvEvaluate 1) (population toy_state0 @ offspring)"
    by blast
  have b: "filter (is_evaluate 1) (new_events toy_state0 s') =
          map (EvEvaluate 1)
            [\<lparr> genome = 10, fitness = [1, 5, 0], crowding_dist = None \<rparr>,
             \<lparr> genome = 20, fitness = [1, 5, 0], crowding_dist = None \<rparr>,
             \<lparr> genome = 13, fitness = [1, 5, 0], crowding_dist = None \<rparr>,
             \<lparr> genome = 24, fitness = [1, 5, 0], crowding_dist = None \<rparr>]"
    using toy_step_offspring s' by simp
  from toy_state0_size s' a b show ?thesis by blast
qed

section \<open>A run that the padding step aborts\<close>

text \<open>
  A population of two in which one individual dominates the other: generation zero
  completes and is reported; in generation 1 the first front holds one individual, the one
  remaining individual needs three more to make four, and the sample of three out of one
  raises. The run ends there with \<open>ValueError\<close>.
\<close>

lemma small_front_aborts_run:
  "(case main dom_lib toy_config [2, 1] of
      Inl (err, s) \<Rightarrow>
        err = ValueError ''Sample larger than population or is negative'' \<and>
        map genome (population s) = [1, 2] \<and> map gen (logbook s) = [0]
    | Inr s \<Rightarrow> False)"
  by code_simp

text \<open>
  With four individuals the same instance pads: three individuals behind a first front of
  one are completed by that one, and the run goes through its three generations.
\<close>

lemma padded_run_completes:
  "(case main dom_lib (toy_config\<lparr>pop_size := 4, gens := 3\<rparr>) [4, 3, 2, 1, 5, 6, 7] of
      Inl (err, s) \<Rightarrow> False
    | Inr s \<Rightarrow> map gen (logbook s) = [0, 1, 2] \<and> map evals (logbook s) = [4, 8, 8] \<and>
               length (population s) = 4)"
  by code_simp


end
